theory Spec2Isabelle
  imports Complex_Main "HOL-Library.Monad_Syntax" "HOL-Library.Multiset"
begin

section \<open>Python values used by the poker game\<close>

text \<open>
  A call that raises (IndexError, ValueError, SystemExit from \<open>exit\<close>, or the
  pygame error that follows \<open>pygame.quit\<close>) ends the program: nothing in the
  repository catches it except the top-level handler that prints a goodbye message. Such a
  call has the value \<open>None\<close> in the option monad; a call that returns \<open>x\<close> has the value
  \<open>Some x\<close>.
\<close>

type_synonym 'a raises = "'a option"

text \<open>A Python value that is either a string or the object \<open>None\<close>.\<close>

type_synonym pystr = "string option"

text \<open>
  Strings are lists of characters with code points below 256. \<open>isspace\<close> lists the
  characters in that range on which \<open>str.split()\<close> separates words.
\<close>

definition isspace :: "char \<Rightarrow> bool" where
  "isspace c = (c \<in> set [CHR '' '', CHR 0x09, CHR 0x0A, CHR 0x0B, CHR 0x0C, CHR 0x0D,
                          CHR 0x1C, CHR 0x1D, CHR 0x1E, CHR 0x1F, CHR 0x85, CHR 0xA0])"

text \<open>\<open>s.split()\<close>: the maximal runs of non-whitespace characters; the first argument
  collects the current word in reverse.\<close>

fun split_acc :: "string \<Rightarrow> string \<Rightarrow> string list" where
  "split_acc w [] = (if w = [] then [] else [rev w])"
| "split_acc w (c # cs) =
     (if isspace c then (if w = [] then split_acc [] cs else rev w # split_acc [] cs)
      else split_acc (c # w) cs)"

definition str_split :: "string \<Rightarrow> string list" where
  "str_split s = split_acc [] s"

text \<open>\<open>xs[i]\<close> for a non-negative index: IndexError when out of range.\<close>

fun item :: "'a list \<Rightarrow> nat \<Rightarrow> 'a raises" where
  "item [] i = None"
| "item (x # xs) 0 = Some x"
| "item (x # xs) (Suc i) = item xs i"

text \<open>\<open>s.split()[0]\<close>\<close>

definition firstWord :: "string \<Rightarrow> string raises" where
  "firstWord s = item (str_split s) 0"

text \<open>\<open>s.split(".")[0]\<close>: the text before the first dot; it always exists.\<close>

definition beforeDot :: "string \<Rightarrow> string" where
  "beforeDot s = takeWhile (\<lambda>c. c \<noteq> CHR ''.'') s"

text \<open>\<open>sub in s\<close> on strings: \<open>sub\<close> occurs in \<open>s\<close> as a contiguous piece.\<close>

fun startsWith :: "string \<Rightarrow> string \<Rightarrow> bool" where
  "startsWith [] s = True"
| "startsWith (a # as) [] = False"
| "startsWith (a # as) (c # cs) = (a = c \<and> startsWith as cs)"

fun contains :: "string \<Rightarrow> string \<Rightarrow> bool" where
  "contains sub [] = (sub = [])"
| "contains sub (c # cs) = (startsWith sub (c # cs) \<or> contains sub cs)"

text \<open>\<open>xs.index(x)\<close>: the first position of \<open>x\<close>, ValueError when absent.\<close>

fun index :: "'a list \<Rightarrow> 'a \<Rightarrow> nat raises" where
  "index [] x = None"
| "index (y # ys) x = (if y = x then Some 0 else map_option Suc (index ys x))"

text \<open>\<open>xs[a:b]\<close> for non-negative bounds; slices never raise.\<close>

definition slice :: "'a list \<Rightarrow> nat \<Rightarrow> nat \<Rightarrow> 'a list" where
  "slice xs a b = drop a (take b xs)"

text \<open>A \<open>for\<close> loop over \<open>idx\<close> that threads a state and stops when the body raises.\<close>

fun forEach :: "'i list \<Rightarrow> ('s \<Rightarrow> 'i \<Rightarrow> 's raises) \<Rightarrow> 's \<Rightarrow> 's raises" where
  "forEach [] body s = Some s"
| "forEach (i # idx) body s = (case body s i of None \<Rightarrow> None | Some s' \<Rightarrow> forEach idx body s')"

text \<open>A \<open>for\<close> loop whose body may \<open>return\<close> a value from the enclosing function:
  \<open>Some (Some r)\<close> is an early return, \<open>Some None\<close> means the loop ran to its end.\<close>

fun forReturn :: "'i list \<Rightarrow> ('i \<Rightarrow> 'r option raises) \<Rightarrow> 'r option raises" where
  "forReturn [] body = Some None"
| "forReturn (i # idx) body =
     (case body i of None \<Rightarrow> None
      | Some (Some r) \<Rightarrow> Some (Some r)
      | Some None \<Rightarrow> forReturn idx body)"

section \<open>SpriteFile.py: cards and the deck\<close>

text \<open>A \<open>Card\<close> is a sprite with a name; only the name takes part in the game logic.\<close>

datatype card = Card (getCardName: string)

definition getType :: "card \<Rightarrow> string raises" where
  "getType c = firstWord (getCardName c)"

definition getSuit :: "card \<Rightarrow> string raises" where
  "getSuit c = map_option beforeDot (item (str_split (getCardName c)) 2)"

definition TYPES :: "string list" where
  "TYPES = [''Ace'', ''Two'', ''Three'', ''Four'', ''Five'', ''Six'', ''Seven'', ''Eight'',
            ''Nine'', ''Ten'', ''Jack'', ''Queen'', ''King'']"

definition SUITS :: "string list" where
  "SUITS = [''Clubs'', ''Diamonds'', ''Hearts'', ''Spades'']"

record deck =
  cardsInDeck :: "card list"
  cardsOutOfDeck :: "card list"
  deckMultiple :: nat

text \<open>The 52 cards in the order of the constructor's two inner loops.\<close>

definition deck52 :: "card list" where
  "deck52 = concat (map (\<lambda>aType. map (\<lambda>aSuit. Card (aType @ '' of '' @ aSuit)) SUITS) TYPES)"

definition Deck :: "nat \<Rightarrow> deck" where
  "Deck n = \<lparr>cardsInDeck = concat (replicate n deck52), cardsOutOfDeck = [], deckMultiple = n\<rparr>"

text \<open>\<open>randint(a, b)\<close> returns some integer between \<open>a\<close> and \<open>b\<close>; which one is decided
  by the number \<open>r\<close> drawn from the random source.\<close>

definition randint :: "nat \<Rightarrow> nat \<Rightarrow> nat \<Rightarrow> nat" where
  "randint a b r = a + r mod (b - a + 1)"

text \<open>\<open>xs.pop(num)\<close> followed by \<open>xs.insert(0, aCard)\<close>, once per index of the deck. The
  random source is a list of numbers, used in order and read as 0 when exhausted.\<close>

fun shuffle_loop :: "nat list \<Rightarrow> nat list \<Rightarrow> card list \<Rightarrow> card list" where
  "shuffle_loop [] rs xs = xs"
| "shuffle_loop (i # idx) rs xs =
     (let num = randint i (length xs - 1) (case rs of [] \<Rightarrow> 0 | r # _ \<Rightarrow> r);
          aCard = xs ! num
      in shuffle_loop idx (tl rs) (aCard # take num xs @ drop (Suc num) xs))"

definition shuffle :: "nat list \<Rightarrow> deck \<Rightarrow> deck" where
  "shuffle rs d = d\<lparr>cardsInDeck := shuffle_loop [0..<length (cardsInDeck d)] rs (cardsInDeck d)\<rparr>"

definition getNumOfCardsInDeck :: "deck \<Rightarrow> nat" where
  "getNumOfCardsInDeck d = length (cardsInDeck d)"

definition addAllCardsBackIntoDeck :: "deck \<Rightarrow> deck" where
  "addAllCardsBackIntoDeck d =
     d\<lparr>cardsInDeck := cardsOutOfDeck d @ cardsInDeck d, cardsOutOfDeck := []\<rparr>"

fun isInDeck :: "card \<Rightarrow> card list \<Rightarrow> bool raises" where
  "isInDeck cardParam [] = Some False"
| "isInDeck cardParam (c # deckOfCards) =
     do { a \<leftarrow> getType cardParam; b \<leftarrow> getType c;
          if a = b then Some True else isInDeck cardParam deckOfCards }"

text \<open>The inner loop of \<open>addSpecificCardsBackIntoDeck\<close>: pop the first drawn card of the
  same type and leave the loop.\<close>

fun popSameType :: "card \<Rightarrow> card list \<Rightarrow> card list raises" where
  "popSameType c [] = Some []"
| "popSameType c (o1 # out) =
     do { a \<leftarrow> getType c; b \<leftarrow> getType o1;
          if a = b then Some out else map_option (Cons o1) (popSameType c out) }"

text \<open>The outer loop: a rejected entry of \<open>cardList\<close> is overwritten with the string
  \<open>'0'\<close> (here \<open>None\<close>), an accepted one stays.\<close>

fun returnLoop :: "card list \<Rightarrow> card list \<Rightarrow> (card option list \<times> card list) raises" where
  "returnLoop [] out = Some ([], out)"
| "returnLoop (c # cardList) out =
     do { known \<leftarrow> isInDeck c out;
          if \<not> known then
            do { (cs, out') \<leftarrow> returnLoop cardList out; Some (None # cs, out') }
          else
            do { out1 \<leftarrow> popSameType c out;
                 (cs, out') \<leftarrow> returnLoop cardList out1; Some (Some c # cs, out') } }"

definition addSpecificCardsBackIntoDeck :: "card list \<Rightarrow> deck \<Rightarrow> deck raises" where
  "addSpecificCardsBackIntoDeck cardList d =
     do { (marked, out') \<leftarrow> returnLoop cardList (cardsOutOfDeck d);
          Some (d\<lparr>cardsInDeck := List.map_filter id marked @ cardsInDeck d,
                  cardsOutOfDeck := out'\<rparr>) }"

text \<open>Drawing from an empty deck calls \<open>exit\<close>.\<close>

definition getCardFromDeck :: "deck \<Rightarrow> (card \<times> deck) raises" where
  "getCardFromDeck d =
     (if length (cardsInDeck d) = 0 then None
      else let topCard = last (cardsInDeck d)
           in Some (topCard, d\<lparr>cardsInDeck := butlast (cardsInDeck d),
                                cardsOutOfDeck := cardsOutOfDeck d @ [topCard]\<rparr>))"

section \<open>GameFile.py: the hand evaluator\<close>

definition CARD_HANDS :: "string list" where
  "CARD_HANDS = [''Royal Flush'', ''Straight Flush'', ''Four of a Kind'', ''Full House'',
                 ''Flush'', ''Straight'', ''Three of a Kind'', ''Two Pairs'', ''One Pair'',
                 ''No Pair'']"

text \<open>\<open>Deck.TYPES[1:] + ["Ace"]\<close>: the card names from lowest to highest.\<close>

definition cardRanking :: "string list" where
  "cardRanking = tl TYPES @ [''Ace'']"

text \<open>The inner loop of \<open>getHighCard\<close> over the cards, for one name of the ranking.\<close>

fun anyCardNamed :: "string \<Rightarrow> card list \<Rightarrow> bool" where
  "anyCardNamed r [] = False"
| "anyCardNamed r (c # cards) = (if contains r (getCardName c) then True else anyCardNamed r cards)"

text \<open>The outer loop, from the highest name down. Falling off the end returns \<open>None\<close>.\<close>

fun highCardLoop :: "string list \<Rightarrow> card list \<Rightarrow> pystr" where
  "highCardLoop [] cards = None"
| "highCardLoop (r # ranking) cards = (if anyCardNamed r cards then Some r else highCardLoop ranking cards)"

definition getHighCard :: "card list \<Rightarrow> pystr" where
  "getHighCard cards = highCardLoop (rev cardRanking) cards"

definition isSuitLetter :: "char \<Rightarrow> bool" where
  "isSuitLetter c = (c = CHR ''C'' \<or> c = CHR ''D'' \<or> c = CHR ''H'' \<or> c = CHR ''S'')"

text \<open>The inner loop of \<open>isFlush\<close> over the characters of the \<open>i\<close>-th name. \<open>None\<close> is
  \<open>return False\<close>; \<open>Some l\<close> leaves the loop (by \<open>break\<close> or at its end) with \<open>letter = l\<close>.\<close>

fun flushChars :: "nat \<Rightarrow> string \<Rightarrow> char \<Rightarrow> char option" where
  "flushChars i [] letter = Some letter"
| "flushChars i (c # cs) letter =
     (if isSuitLetter c then
        (if i = 0 then Some c
         else if letter \<noteq> c then None
         else flushChars i cs letter)
      else flushChars i cs letter)"

fun flushNames :: "nat \<Rightarrow> string list \<Rightarrow> char \<Rightarrow> bool" where
  "flushNames i [] letter = True"
| "flushNames i (n # cardNames) letter =
     (case flushChars i n letter of None \<Rightarrow> False
      | Some l \<Rightarrow> flushNames (Suc i) cardNames l)"

definition isFlush :: "card list \<Rightarrow> bool" where
  "isFlush cards = flushNames 0 (map getCardName cards) (CHR ''o'')"

text \<open>The two \<open>for k\<close> loops of \<open>isStraight\<close>: the last position of the word in the
  ranking, 0 when it is not there.\<close>

definition rankValue :: "string list \<Rightarrow> string \<Rightarrow> nat" where
  "rankValue aList w = foldl (\<lambda>v k. if aList ! k = w then k else v) 0 [0..<length aList]"

text \<open>One step of the inner \<open>for j\<close> loop: compare the cards at \<open>i\<close> and \<open>j\<close>, swap them
  when they are out of order.\<close>

definition swapStep :: "nat \<Rightarrow> string list \<Rightarrow> nat \<Rightarrow> string list raises" where
  "swapStep i temp j =
     do { wi \<leftarrow> firstWord (temp ! i);
          wj \<leftarrow> firstWord (temp ! j);
          let v1 = rankValue cardRanking wi; v2 = rankValue cardRanking wj
          in Some (if v1 > v2 then temp[j := temp ! i, i := temp ! j] else temp) }"

definition sortNames :: "string list \<Rightarrow> string list raises" where
  "sortNames temp0 =
     forEach [0..<length temp0]
       (\<lambda>temp i. forEach [i + 1..<length temp0] (swapStep i) temp) temp0"

text \<open>The last loop of \<open>isStraight\<close>: \<open>None\<close> is the IndexError of reading the ranking
  past its end.\<close>

fun runFrom :: "nat \<Rightarrow> nat list \<Rightarrow> string list \<Rightarrow> bool raises" where
  "runFrom start [] temp = Some True"
| "runFrom start (i # idx) temp =
     do { w \<leftarrow> firstWord (temp ! i);
          r \<leftarrow> item cardRanking (start + i);
          if w \<noteq> r then Some False else runFrom start idx temp }"

definition isStraight :: "card list \<Rightarrow> bool raises" where
  "isStraight cards =
     do { temp \<leftarrow> sortNames (map getCardName cards);
          t4 \<leftarrow> item temp 4;
          w4 \<leftarrow> firstWord t4;
          temp' \<leftarrow> (if w4 = ''Ace'' then
                      do { t0 \<leftarrow> item temp 0; w0 \<leftarrow> firstWord t0;
                           Some (if w0 = ''Two'' then take 4 temp @ drop 5 temp else temp) }
                    else Some temp);
          t0 \<leftarrow> item temp' 0;
          w0 \<leftarrow> firstWord t0;
          runFrom (rankValue cardRanking w0) [1..<length temp'] temp' }"

text \<open>The inner loop of \<open>isRoyalFlush\<close>: cross out the first needed name equal to the
  word and leave the loop.\<close>

fun crossOut :: "string \<Rightarrow> string list \<Rightarrow> string list" where
  "crossOut w [] = []"
| "crossOut w (n # needed) = (if w = n then ''*'' # needed else n # crossOut w needed)"

definition isRoyalFlush :: "card list \<Rightarrow> bool raises" where
  "isRoyalFlush cards =
     (if \<not> isFlush cards then Some False
      else do { needed \<leftarrow> forEach (map getCardName cards)
                           (\<lambda>needed v. do { w \<leftarrow> firstWord v; Some (crossOut w needed) })
                           (drop 9 TYPES @ [''Ace'']);
                Some (list_all (\<lambda>s. s = ''*'') needed) })"

definition isStraightFlush :: "card list \<Rightarrow> bool raises" where
  "isStraightFlush cards = (if isFlush cards then isStraight cards else Some False)"

text \<open>The counting loops shared by \<open>isXofAKind\<close> and \<open>isTwoPairs\<close>: one counter per
  entry of \<open>Deck.TYPES\<close>, indexed by the position of the card's first word in the ranking.\<close>

definition countWord :: "string \<Rightarrow> nat list \<Rightarrow> nat list" where
  "countWord w occ =
     foldl (\<lambda>oc j. if cardRanking ! j = w then oc[j := oc ! j + 1] else oc) occ
       [0..<length cardRanking]"

definition occurrences :: "card list \<Rightarrow> nat list raises" where
  "occurrences cards =
     forEach (map getCardName cards)
       (\<lambda>occ v. do { w \<leftarrow> firstWord v; Some (countWord w occ) })
       (replicate (length TYPES) 0)"

text \<open>\<open>X\<close> outside 0..4 calls \<open>exit\<close>.\<close>

definition isXofAKind :: "card list \<Rightarrow> int \<Rightarrow> bool raises" where
  "isXofAKind cards X =
     (if X < 0 \<or> X > 4 then None
      else do { occ \<leftarrow> occurrences cards; Some (list_ex (\<lambda>n. int n = X) occ) })"

definition isTwoPairs :: "card list \<Rightarrow> bool raises" where
  "isTwoPairs cards =
     do { occ \<leftarrow> occurrences cards; Some (length (filter (\<lambda>n. n = 2) occ) = 2) }"

definition isOnePair :: "card list \<Rightarrow> bool raises" where
  "isOnePair cards = isXofAKind cards 2"

definition isFourOfAKind :: "card list \<Rightarrow> bool raises" where
  "isFourOfAKind cards = isXofAKind cards 4"

definition isFullHouse :: "card list \<Rightarrow> bool raises" where
  "isFullHouse cards =
     do { three \<leftarrow> isXofAKind cards 3;
          if three then isXofAKind cards 2 else Some False }"

definition isThreeOfAKind :: "card list \<Rightarrow> bool raises" where
  "isThreeOfAKind cards = isXofAKind cards 3"

text \<open>The list \<open>functions\<close> of \<open>checkHand\<close> (a reserved word here, hence the longer name); \<open>eval\<close> calls the one named at position \<open>i\<close>
  on the variable \<open>temp\<close> (the only local variable equal to the five-card list).\<close>

definition handFunctions :: "(card list \<Rightarrow> bool raises) list" where
  "handFunctions = [isRoyalFlush, isStraightFlush, isFourOfAKind, isFullHouse,
                (\<lambda>cards. Some (isFlush cards)), isStraight, isThreeOfAKind, isTwoPairs,
                isOnePair]"

text \<open>The two wrap-around windows of \<open>checkHand\<close>: \<open>n\<close> consecutive cards from position
  \<open>start\<close>, continuing at the front of the list when the end is passed.\<close>

definition window :: "'a list \<Rightarrow> nat \<Rightarrow> nat \<Rightarrow> 'a list" where
  "window cards start n =
     (let end = start + n
      in if end \<ge> length cards + 1 then
           drop start cards @ take (end - length cards) cards
         else slice cards start end)"

text \<open>The three nested loops of \<open>checkHand\<close> on the seven cards (five on display, then
  the two hole cards), and the fallback to the higher of the two hole cards.\<close>

definition checkHandCards :: "card list \<Rightarrow> pystr raises" where
  "checkHandCards cards =
     do { found \<leftarrow>
            forReturn [0..<length handFunctions] (\<lambda>i.
              forReturn [0..<length cards] (\<lambda>j.
                let specificCards = window cards j 6 in
                forReturn [0..<length specificCards] (\<lambda>k.
                  let temp = window specificCards k 5 in
                  do { hit \<leftarrow> (handFunctions ! i) temp;
                       Some (if hit then Some (CARD_HANDS ! i) else None) })));
          Some (case found of Some hand \<Rightarrow> Some hand
                | None \<Rightarrow> getHighCard (drop 5 cards)) }"

section \<open>SpriteFile.py: buttons\<close>

text \<open>A button's rectangle and whether it can be clicked; colour and caption are only drawn.\<close>

record button =
  btnX :: int
  btnY :: int
  btnWidth :: int
  btnHeight :: int
  clickable :: bool

definition Button :: "int \<Rightarrow> int \<Rightarrow> int \<Rightarrow> int \<Rightarrow> button" where
  "Button x y w h = \<lparr>btnX = x, btnY = y, btnWidth = w, btnHeight = h, clickable = True\<rparr>"

definition mouseIsOver :: "button \<Rightarrow> int \<times> int \<Rightarrow> bool" where
  "mouseIsOver b pos =
     (btnX b < fst pos \<and> fst pos < btnX b + btnWidth b \<and>
      btnY b < snd pos \<and> snd pos < btnY b + btnHeight b)"

definition changeClickability :: "bool \<Rightarrow> button \<Rightarrow> button" where
  "changeClickability flag b = (if clickable b = flag then b else b\<lparr>clickable := flag\<rparr>)"

section \<open>GameFile.py: the state of the poker game\<close>

text \<open>
  Money is a Python \<open>int\<close> until a pot is split with \<open>/\<close>, which yields a float. The
  amounts are modelled as exact rationals: on the integers and halves that occur (far below
  \<open>2^53\<close>) float arithmetic is exact. Clock readings of \<open>time.time()\<close> are rationals too.
  Sprite positions, captions and the rendered text are left out.
\<close>

definition MINIMUM_BET_WAGE :: rat where "MINIMUM_BET_WAGE = 20"
definition START_BALANCE :: rat where "START_BALANCE = 500"
definition COMPUTER_WAIT_TIME :: rat where "COMPUTER_WAIT_TIME = 1"

definition K_RETURN :: int where "K_RETURN = 13"
definition K_q :: int where "K_q = 113"

record game =
  startTime :: rat
  winner :: string
  userHand :: pystr
  computerHand :: pystr
  roundHasEnded :: bool
  userFolded :: bool
  computerHasTurn :: bool
  computerTurnStartTime :: rat
  userMoney :: rat
  computerMoney :: rat
  currentPot :: rat
  currentWager :: rat
  currentBeingRisked :: rat
  foldButton :: button
  callButton :: button
  raiseButton :: button
  newRoundButton :: button
  exitGameButton :: button
  cardDeck :: deck
  userCard1 :: card
  userCard2 :: card
  computerCard1 :: card
  computerCard2 :: card
  displayCards :: "card list"
  cardsInDisplay :: nat

text \<open>\<open>PokerGame.__init__\<close>; \<open>rs\<close> feeds the shuffle of the new deck.\<close>

definition newGame :: "nat list \<Rightarrow> game" where
  "newGame rs =
     \<lparr>startTime = -1, winner = ''No Winner'', userHand = Some ''None'',
      computerHand = Some ''None'', roundHasEnded = False, userFolded = False,
      computerHasTurn = False, computerTurnStartTime = 0,
      userMoney = START_BALANCE, computerMoney = START_BALANCE,
      currentPot = 0, currentWager = MINIMUM_BET_WAGE, currentBeingRisked = 0,
      foldButton = Button 20 20 80 50, callButton = Button 110 20 80 50,
      raiseButton = Button 200 20 80 50, newRoundButton = Button 130 20 100 50,
      exitGameButton = Button 40 20 80 50,
      cardDeck = shuffle rs (Deck 1),
      userCard1 = Card ''Empty'', userCard2 = Card ''Empty'',
      computerCard1 = Card ''Empty'', computerCard2 = Card ''Empty'',
      displayCards = replicate 5 (Card ''Empty''), cardsInDisplay = 0\<rparr>"

text \<open>Drawing a card for the game: the deck inside the state is updated.\<close>

definition drawCard :: "game \<Rightarrow> (card \<times> game) raises" where
  "drawCard s = do { (c, d) \<leftarrow> getCardFromDeck (cardDeck s); Some (c, s\<lparr>cardDeck := d\<rparr>) }"

text \<open>\<open>self._displayCards[i] = c\<close>: IndexError outside the list.\<close>

definition setDisplayCard :: "nat \<Rightarrow> card \<Rightarrow> game \<Rightarrow> game raises" where
  "setDisplayCard i c s =
     (if i < length (displayCards s) then Some (s\<lparr>displayCards := (displayCards s)[i := c]\<rparr>)
      else None)"

definition startNewRound :: "nat list \<Rightarrow> game \<Rightarrow> game raises" where
  "startNewRound rs s =
     do { let s1 = s\<lparr>winner := ''No Winner'', userHand := Some ''None'',
                      computerHand := Some ''None'', currentPot := 0,
                      currentWager := MINIMUM_BET_WAGE, currentBeingRisked := 0,
                      roundHasEnded := False, userFolded := False, cardsInDisplay := 0,
                      cardDeck := shuffle rs (addAllCardsBackIntoDeck (cardDeck s))\<rparr>;
          (c1, s2) \<leftarrow> drawCard s1;
          (c2, s3) \<leftarrow> drawCard s2;
          (c3, s4) \<leftarrow> drawCard s3;
          (c4, s5) \<leftarrow> drawCard s4;
          Some (s5\<lparr>userCard1 := c1, userCard2 := c2, computerCard1 := c3, computerCard2 := c4\<rparr>) }"

definition displayFlop :: "game \<Rightarrow> game raises" where
  "displayFlop s =
     do { s' \<leftarrow> forEach [0..<3]
                  (\<lambda>t i. do { (c, t') \<leftarrow> drawCard t; setDisplayCard i c t' })
                  (s\<lparr>currentWager := MINIMUM_BET_WAGE\<rparr>);
          Some (s'\<lparr>cardsInDisplay := 3\<rparr>) }"

definition displayFourthCard :: "game \<Rightarrow> game raises" where
  "displayFourthCard s =
     do { (c, s1) \<leftarrow> drawCard (s\<lparr>currentWager := MINIMUM_BET_WAGE\<rparr>);
          s2 \<leftarrow> setDisplayCard 3 c s1;
          Some (s2\<lparr>cardsInDisplay := 4\<rparr>) }"

definition displayLastCard :: "game \<Rightarrow> game raises" where
  "displayLastCard s =
     do { (c, s1) \<leftarrow> drawCard (s\<lparr>currentWager := MINIMUM_BET_WAGE\<rparr>);
          s2 \<leftarrow> setDisplayCard 4 c s1;
          Some (s2\<lparr>cardsInDisplay := 5\<rparr>) }"

definition displayNextCardSet :: "game \<Rightarrow> game raises" where
  "displayNextCardSet s =
     (if cardsInDisplay s = 0 then displayFlop s
      else if cardsInDisplay s = 3 then displayFourthCard s
      else if cardsInDisplay s = 4 then displayLastCard s
      else Some s)"

definition checkHand :: "bool \<Rightarrow> game \<Rightarrow> pystr raises" where
  "checkHand isUser s =
     checkHandCards (if isUser then displayCards s @ [userCard1 s, userCard2 s]
                     else displayCards s @ [computerCard1 s, computerCard2 s])"

text \<open>The position of a hand in \<open>_CARD_HANDS\<close>, or -1 for anything else.\<close>

definition handScore :: "pystr \<Rightarrow> int" where
  "handScore h =
     (case h of None \<Rightarrow> -1
      | Some name \<Rightarrow> (case index CARD_HANDS name of None \<Rightarrow> -1 | Some n \<Rightarrow> int n))"

text \<open>\<open>aList.index(PokerGame.getHighCard(cards))\<close>: ValueError when no card carries a
  name of the ranking.\<close>

definition highCardScore :: "card list \<Rightarrow> nat raises" where
  "highCardScore cards =
     (case getHighCard cards of None \<Rightarrow> None | Some name \<Rightarrow> index cardRanking name)"

definition determineWinner :: "game \<Rightarrow> game raises" where
  "determineWinner s =
     do { userCardScore \<leftarrow> highCardScore [userCard1 s, userCard2 s];
          compCardScore \<leftarrow> highCardScore [computerCard1 s, computerCard2 s];
          let userScore = handScore (userHand s);
              computerScore = handScore (computerHand s);
              w = (if userScore \<ge> 0 \<and> computerScore \<ge> 0 then
                     (if userScore < computerScore then ''User''
                      else if userScore > computerScore then ''Computer''
                      else if userCardScore > compCardScore then ''User''
                      else if userCardScore < compCardScore then ''Computer''
                      else ''Nobody'')
                   else if userScore = -1 \<and> computerScore = -1 then
                     (if userCardScore > compCardScore then ''User''
                      else if userCardScore < compCardScore then ''Computer''
                      else ''Nobody'')
                   else if userScore = -1 then ''Computer''
                   else ''User'');
              s1 = s\<lparr>winner := w\<rparr>;
              s2 = (if w = ''User'' then s1\<lparr>userMoney := userMoney s1 + currentPot s1\<rparr>
                    else if w = ''Computer'' then
                      s1\<lparr>computerMoney := computerMoney s1 + currentPot s1\<rparr>
                    else s1\<lparr>userMoney := userMoney s1 + currentPot s1 / 2,
                            computerMoney := computerMoney s1 + currentPot s1 / 2\<rparr>)
          in Some (s2\<lparr>currentPot := 0, currentWager := MINIMUM_BET_WAGE,
                      currentBeingRisked := 0, roundHasEnded := True\<rparr>) }"

definition fold :: "game \<Rightarrow> game raises" where
  "fold s =
     do { let s1 = s\<lparr>computerMoney := computerMoney s + currentPot s, currentPot := 0,
                      currentWager := MINIMUM_BET_WAGE, currentBeingRisked := 0,
                      roundHasEnded := True, winner := ''Computer'', userFolded := True\<rparr>;
          uh \<leftarrow> checkHand True s1;
          let s2 = s1\<lparr>userHand := uh\<rparr>;
          ch \<leftarrow> checkHand False s2;
          let s3 = s2\<lparr>computerHand := ch\<rparr>;
          s4 \<leftarrow> (if cardsInDisplay s3 = 0 then displayFlop s3 else Some s3);
          s5 \<leftarrow> (if cardsInDisplay s4 = 3 then displayFourthCard s4 else Some s4);
          (if cardsInDisplay s5 = 4 then displayLastCard s5 else Some s5) }"

text \<open>\<open>now\<close> is the clock reading taken when the computer's turn starts.\<close>

definition executeComputerCall :: "rat \<Rightarrow> game \<Rightarrow> game" where
  "executeComputerCall now s =
     s\<lparr>computerMoney := computerMoney s - currentWager s,
       currentPot := currentPot s + currentWager s,
       computerHasTurn := True, computerTurnStartTime := now\<rparr>"

text \<open>The last bet: both hands are evaluated and the winner is determined.\<close>

definition showdown :: "game \<Rightarrow> game raises" where
  "showdown s =
     do { uh \<leftarrow> checkHand True s;
          let s1 = s\<lparr>userHand := uh\<rparr>;
          ch \<leftarrow> checkHand False s1;
          determineWinner (s1\<lparr>computerHand := ch\<rparr>) }"

definition call :: "rat \<Rightarrow> game \<Rightarrow> game raises" where
  "call now s =
     (if userMoney s - currentWager s < 0 then
        fold (s\<lparr>userMoney := START_BALANCE, computerMoney := START_BALANCE,
                currentPot := 0, currentBeingRisked := 0\<rparr>)
      else
        let s1 = s\<lparr>userMoney := userMoney s - currentWager s,
                   currentPot := currentPot s + currentWager s,
                   currentBeingRisked := currentBeingRisked s + currentWager s\<rparr>;
            s2 = executeComputerCall now s1
        in if cardsInDisplay s2 = 5 then showdown s2 else Some s2)"

definition raise :: "rat \<Rightarrow> game \<Rightarrow> game raises" where
  "raise now s =
     (if userMoney s < 2 * currentWager s then Some s
      else
        let s0 = s\<lparr>currentWager := currentWager s * 2\<rparr>;
            s1 = s0\<lparr>userMoney := userMoney s0 - currentWager s0,
                    currentPot := currentPot s0 + currentWager s0,
                    currentBeingRisked := currentBeingRisked s0 + currentWager s0\<rparr>;
            s2 = executeComputerCall now s1
        in if cardsInDisplay s2 = 5 then showdown s2 else Some s2)"

text \<open>\<open>keyDown\<close>: \<open>t1\<close> and \<open>t2\<close> are its two clock readings.\<close>

definition keyDown :: "int \<Rightarrow> rat \<Rightarrow> rat \<Rightarrow> game \<Rightarrow> game raises" where
  "keyDown key t1 t2 s =
     (if (key = K_RETURN \<or> key = K_q) \<and> (startTime s = -1 \<or> t1 - startTime s > 1 / 20) then
        do { s' \<leftarrow> fold s; Some (s'\<lparr>startTime := t2\<rparr>) }
      else Some s)"

text \<open>\<open>mouseButtonDown\<close>: \<open>pos\<close> is what \<open>pygame.mouse.get_pos()\<close> returns, \<open>now\<close> the
  clock reading of a bet, \<open>rs\<close> the random source of a new round's shuffle. Leaving the
  game (\<open>pygame.quit\<close>) ends the program.\<close>

definition mouseButtonDown :: "int \<times> int \<Rightarrow> rat \<Rightarrow> nat list \<Rightarrow> game \<Rightarrow> game raises" where
  "mouseButtonDown pos now rs s =
     (if computerHasTurn s then Some s
      else if \<not> roundHasEnded s then
        (if mouseIsOver (foldButton s) pos \<and> clickable (foldButton s) then fold s
         else if mouseIsOver (callButton s) pos \<and> clickable (callButton s) then call now s
         else if mouseIsOver (raiseButton s) pos \<and> clickable (raiseButton s) then raise now s
         else Some s)
      else
        (if mouseIsOver (newRoundButton s) pos \<and> clickable (newRoundButton s) then
           startNewRound rs s
         else if mouseIsOver (exitGameButton s) pos \<and> clickable (exitGameButton s) then None
         else Some s))"

definition checkForClickabilityChanges :: "game \<Rightarrow> game" where
  "checkForClickabilityChanges s =
     (let s1 = (if userMoney s < currentWager s * 2 then
                  s\<lparr>raiseButton := changeClickability False (raiseButton s)\<rparr>
                else if \<not> clickable (raiseButton s) \<and> userMoney s \<ge> currentWager s * 2 then
                  s\<lparr>raiseButton := changeClickability True (raiseButton s)\<rparr>
                else s)
      in if roundHasEnded s1 \<and>
            (\<not> clickable (newRoundButton s1) \<or> \<not> clickable (exitGameButton s1)) then
           s1\<lparr>newRoundButton := changeClickability True (newRoundButton s1),
              exitGameButton := changeClickability True (exitGameButton s1)\<rparr>
         else if \<not> roundHasEnded s1 \<and>
                 (clickable (newRoundButton s1) \<or> clickable (exitGameButton s1)) then
           s1\<lparr>newRoundButton := changeClickability False (newRoundButton s1),
              exitGameButton := changeClickability False (exitGameButton s1)\<rparr>
         else s1)"

text \<open>The head of the main loop: the computer's turn ends once its wait time has passed.\<close>

definition endComputerTurn :: "rat \<Rightarrow> game \<Rightarrow> game raises" where
  "endComputerTurn now s =
     (if computerHasTurn s \<and> now - computerTurnStartTime s > COMPUTER_WAIT_TIME then
        do { s' \<leftarrow> displayNextCardSet s; Some (s'\<lparr>computerHasTurn := False\<rparr>) }
      else Some s)"

datatype event =
  MouseButtonDown "int \<times> int" rat "nat list"
| KeyDown int rat rat

fun handleEvent :: "game \<Rightarrow> event \<Rightarrow> game raises" where
  "handleEvent s (MouseButtonDown pos now rs) = mouseButtonDown pos now rs s"
| "handleEvent s (KeyDown key t1 t2) = keyDown key t1 t2 s"

text \<open>One pass of the loop in \<open>PokerGame.run\<close>: the timer, the pending events, the
  buttons. \<open>startGame\<close> is the constructor followed by the first round.\<close>

definition frame :: "rat \<Rightarrow> event list \<Rightarrow> game \<Rightarrow> game raises" where
  "frame now events s =
     do { s1 \<leftarrow> endComputerTurn now s;
          s2 \<leftarrow> forEach events handleEvent s1;
          Some (checkForClickabilityChanges s2) }"

definition startGame :: "nat list \<Rightarrow> nat list \<Rightarrow> game raises" where
  "startGame rs0 rs1 = startNewRound rs1 (newGame rs0)"

fun frames :: "(rat \<times> event list) list \<Rightarrow> game \<Rightarrow> game raises" where
  "frames [] s = Some s"
| "frames ((now, events) # fs) s =
     (case frame now events s of None \<Rightarrow> None | Some s' \<Rightarrow> frames fs s')"

inductive reachable :: "game \<Rightarrow> bool" where
  start: "startGame rs0 rs1 = Some s \<Longrightarrow> reachable s"
| step: "reachable s \<Longrightarrow> frame now events s = Some s' \<Longrightarrow> reachable s'"

section \<open>Quantities and example states used in the statements\<close>

text \<open>All the money on the table.\<close>

definition totalMoney :: "game \<Rightarrow> rat" where
  "totalMoney s = userMoney s + computerMoney s + currentPot s"

text \<open>What dealing cards may change: the deck, the cards on display, their number and the
  wager (which goes back to the minimum).\<close>

definition dealt :: "game \<Rightarrow> game \<Rightarrow> bool" where
  "dealt s s' =
     (s' = s\<lparr>currentWager := currentWager s', cardDeck := cardDeck s',
             displayCards := displayCards s', cardsInDisplay := cardsInDisplay s'\<rparr>
      \<and> (currentWager s' = currentWager s \<or> currentWager s' = MINIMUM_BET_WAGE))"

text \<open>
  A table at the last bet of a round: four queens and an ace on display, low hole cards on
  both sides, the other 43 cards still in the deck. Both players have called three times.
\<close>

definition riverCards :: "card list" where
  "riverCards = [Card ''Queen of Spades'', Card ''Queen of Hearts'', Card ''Queen of Diamonds'',
                 Card ''Queen of Clubs'', Card ''Ace of Diamonds'']"

definition riverDeck :: deck where
  "riverDeck =
     (let out = [Card ''Two of Hearts'', Card ''Four of Spades'', Card ''Two of Clubs'',
                 Card ''Three of Diamonds''] @ riverCards
      in \<lparr>cardsInDeck = filter (\<lambda>c. c \<notin> set out) deck52, cardsOutOfDeck = out,
          deckMultiple = 1\<rparr>)"

definition riverGame :: game where
  "riverGame =
     \<lparr>startTime = -1, winner = ''No Winner'', userHand = Some ''None'',
      computerHand = Some ''None'', roundHasEnded = False, userFolded = False,
      computerHasTurn = False, computerTurnStartTime = 3,
      userMoney = 440, computerMoney = 440,
      currentPot = 120, currentWager = 20, currentBeingRisked = 60,
      foldButton = Button 20 20 80 50, callButton = Button 110 20 80 50,
      raiseButton = Button 200 20 80 50,
      newRoundButton = (Button 130 20 100 50)\<lparr>clickable := False\<rparr>,
      exitGameButton = (Button 40 20 80 50)\<lparr>clickable := False\<rparr>,
      cardDeck = riverDeck,
      userCard1 = Card ''Two of Hearts'', userCard2 = Card ''Four of Spades'',
      computerCard1 = Card ''Two of Clubs'', computerCard2 = Card ''Three of Diamonds'',
      displayCards = riverCards, cardsInDisplay = 5\<rparr>"

text \<open>The same table after the human's fourth call at time 5 and the computer's matching
  call, and after the showdown that follows.\<close>

definition riverMatched :: game where
  "riverMatched =
     riverGame\<lparr>userMoney := 420, computerMoney := 420, currentPot := 160,
               currentBeingRisked := 80, computerHasTurn := True, computerTurnStartTime := 5\<rparr>"

definition riverShowdown :: game where
  "riverShowdown =
     riverMatched\<lparr>userHand := Some ''Four of a Kind'', computerHand := Some ''Four of a Kind'',
                  winner := ''User'', userMoney := 580, currentPot := 0,
                  currentBeingRisked := 0, roundHasEnded := True\<rparr>"

text \<open>The table after a fold instead of the fourth call.\<close>

definition riverFolded :: game where
  "riverFolded =
     riverGame\<lparr>userHand := Some ''Four of a Kind'', computerHand := Some ''Four of a Kind'',
               winner := ''Computer'', computerMoney := 560, currentPot := 0,
               currentBeingRisked := 0, roundHasEnded := True, userFolded := True\<rparr>"

text \<open>The state after the Return key is pressed at time 6 on the finished round.\<close>

definition riverKeyFolded :: game where
  "riverKeyFolded = riverShowdown\<lparr>winner := ''Computer'', userFolded := True, startTime := 6\<rparr>"

text \<open>The same table with a human who has lost everything, and what a call makes of it.\<close>

definition riverBroke :: game where
  "riverBroke = riverGame\<lparr>userMoney := 0, computerMoney := 880\<rparr>"

definition riverBankrupt :: game where
  "riverBankrupt = riverFolded\<lparr>userMoney := 500, computerMoney := 500\<rparr>"

text \<open>The table after a raise instead of the fourth call, and a showdown in which both
  players hold a four as their higher hole card.\<close>

definition riverRaised :: game where
  "riverRaised =
     riverShowdown\<lparr>userMoney := 600, computerMoney := 400\<rparr>"

definition riverTie :: game where
  "riverTie =
     riverMatched\<lparr>userHand := Some ''Four of a Kind'', computerHand := Some ''Four of a Kind'',
                  computerCard2 := Card ''Four of Hearts''\<rparr>"

definition riverSplit :: game where
  "riverSplit =
     riverTie\<lparr>winner := ''Nobody'', userMoney := 500, computerMoney := 500, currentPot := 0,
              currentBeingRisked := 0, roundHasEnded := True\<rparr>"

text \<open>The two decisions of \<open>determineWinner\<close> on their own: who wins, given the two
  category positions and the two hole-card positions, and who is paid, given the winner
  recorded in the state.\<close>

definition winnerName :: "int \<Rightarrow> int \<Rightarrow> nat \<Rightarrow> nat \<Rightarrow> string" where
  "winnerName userScore computerScore userCardScore compCardScore =
     (if userScore \<ge> 0 \<and> computerScore \<ge> 0 then
        (if userScore < computerScore then ''User''
         else if userScore > computerScore then ''Computer''
         else if userCardScore > compCardScore then ''User''
         else if userCardScore < compCardScore then ''Computer''
         else ''Nobody'')
      else if userScore = -1 \<and> computerScore = -1 then
        (if userCardScore > compCardScore then ''User''
         else if userCardScore < compCardScore then ''Computer''
         else ''Nobody'')
      else if userScore = -1 then ''Computer''
      else ''User'')"

definition payOut :: "game \<Rightarrow> game" where
  "payOut s =
     (if winner s = ''User'' then s\<lparr>userMoney := userMoney s + currentPot s\<rparr>
      else if winner s = ''Computer'' then s\<lparr>computerMoney := computerMoney s + currentPot s\<rparr>
      else s\<lparr>userMoney := userMoney s + currentPot s / 2,
              computerMoney := computerMoney s + currentPot s / 2\<rparr>)"

text \<open>What the game keeps true of the human's money: the balance, the pot and the wager
  are not negative.\<close>

definition solvent :: "game \<Rightarrow> bool" where
  "solvent s = (0 \<le> userMoney s \<and> 0 \<le> currentPot s \<and> 0 \<le> currentWager s)"

text \<open>The number of cards left to draw, and what \<open>__fold\<close> needs in order to turn over
  the cards that are still hidden.\<close>

definition deckSize :: "game \<Rightarrow> nat" where
  "deckSize s = length (cardsInDeck (cardDeck s))"

definition canReveal :: "game \<Rightarrow> bool" where
  "canReveal s =
     (5 \<le> length (displayCards s) \<and>
      (cardsInDisplay s = 0 \<longrightarrow> 5 \<le> deckSize s) \<and>
      (cardsInDisplay s = 3 \<longrightarrow> 2 \<le> deckSize s) \<and>
      (cardsInDisplay s = 4 \<longrightarrow> 1 \<le> deckSize s))"

section \<open>The evaluator seen through ranks and suit letters\<close>

text \<open>
  The nine tests read a card's name in two ways only: its first word, looked up in the
  ranking, and its capital letters C, D, H and S. The definitions below restate the tests on
  these two readings; the lemmas further down prove that they compute what the code
  computes, so that a hand can be evaluated on numbers instead of strings.
\<close>

definition lettersOf :: "card \<Rightarrow> string" where
  "lettersOf c = filter isSuitLetter (getCardName c)"

fun flushLetters :: "string list \<Rightarrow> bool" where
  "flushLetters [] = True"
| "flushLetters (l # ls) =
     (let letter = (case l of [] \<Rightarrow> CHR ''o'' | x # _ \<Rightarrow> x)
      in list_all (list_all (\<lambda>x. x = letter)) ls)"

fun sel :: "('a \<Rightarrow> nat) \<Rightarrow> 'a \<Rightarrow> 'a list \<Rightarrow> 'a \<times> 'a list" where
  "sel key x [] = (x, [])"
| "sel key x (y # ys) =
     (if key x > key y then (fst (sel key y ys), x # snd (sel key y ys))
      else (fst (sel key x ys), y # snd (sel key x ys)))"

function exsort :: "('a \<Rightarrow> nat) \<Rightarrow> 'a list \<Rightarrow> 'a list" where
  "exsort key [] = []"
| "exsort key (x # xs) = fst (sel key x xs) # exsort key (snd (sel key x xs))"
  by pat_completeness auto

definition nameKey :: "string \<Rightarrow> nat" where
  "nameKey n = rankValue cardRanking (the (firstWord n))"

definition nameRank :: "string \<Rightarrow> nat option" where
  "nameRank n = (case firstWord n of None \<Rightarrow> None | Some w \<Rightarrow> index cardRanking w)"

fun runRanks :: "nat \<Rightarrow> nat list \<Rightarrow> nat list \<Rightarrow> bool raises" where
  "runRanks start [] ks = Some True"
| "runRanks start (i # idx) ks =
     (if start + i \<ge> 13 then None
      else if ks ! i \<noteq> start + i then Some False
      else runRanks start idx ks)"

definition straightRanks :: "nat list \<Rightarrow> bool raises" where
  "straightRanks ks =
     do { k4 \<leftarrow> item ks 4;
          let ks' = (if k4 = 12 \<and> ks ! 0 = 0 then take 4 ks @ drop 5 ks else ks)
          in runRanks (ks' ! 0) [1..<length ks'] ks' }"

type_synonym view = "nat \<times> string"

definition view :: "card \<Rightarrow> view" where
  "view c = (the (nameRank (getCardName c)), lettersOf c)"

definition countRanks :: "nat list \<Rightarrow> nat list" where
  "countRanks ks = map (count_list ks) [0..<13]"

definition vFlush :: "view list \<Rightarrow> bool" where
  "vFlush vs = flushLetters (map snd vs)"

definition vStraight :: "view list \<Rightarrow> bool raises" where
  "vStraight vs = straightRanks (sort (map fst vs))"

definition vRoyalFlush :: "view list \<Rightarrow> bool raises" where
  "vRoyalFlush vs = Some (vFlush vs \<and> list_all (\<lambda>k. k \<in> set (map fst vs)) [8, 9, 10, 11, 12])"

definition vStraightFlush :: "view list \<Rightarrow> bool raises" where
  "vStraightFlush vs = (if vFlush vs then vStraight vs else Some False)"

definition vXofAKind :: "view list \<Rightarrow> nat \<Rightarrow> bool raises" where
  "vXofAKind vs X = Some (list_ex (\<lambda>n. n = X) (countRanks (map fst vs)))"

definition vFullHouse :: "view list \<Rightarrow> bool raises" where
  "vFullHouse vs =
     Some (list_ex (\<lambda>n. n = 3) (countRanks (map fst vs)) \<and>
           list_ex (\<lambda>n. n = 2) (countRanks (map fst vs)))"

definition vTwoPairs :: "view list \<Rightarrow> bool raises" where
  "vTwoPairs vs = Some (length (filter (\<lambda>n. n = 2) (countRanks (map fst vs))) = 2)"

definition viewFunctions :: "(view list \<Rightarrow> bool raises) list" where
  "viewFunctions = [vRoyalFlush, vStraightFlush, (\<lambda>vs. vXofAKind vs 4), vFullHouse,
                    (\<lambda>vs. Some (vFlush vs)), vStraight, (\<lambda>vs. vXofAKind vs 3), vTwoPairs,
                    (\<lambda>vs. vXofAKind vs 2)]"

definition checkViews :: "view list \<Rightarrow> pystr raises" where
  "checkViews vs =
     forReturn [0..<length viewFunctions] (\<lambda>i.
       forReturn [0..<length vs] (\<lambda>j.
         let specific = window vs j 6 in
         forReturn [0..<length specific] (\<lambda>k.
           let temp = window specific k 5 in
           do { hit \<leftarrow> (viewFunctions ! i) temp;
                Some (if hit then Some (CARD_HANDS ! i) else None) })))"

definition ranked :: "card \<Rightarrow> bool" where
  "ranked c = (nameRank (getCardName c) \<noteq> None)"

fun anyHit :: "('a \<Rightarrow> bool raises) \<Rightarrow> 'a list \<Rightarrow> bool raises" where
  "anyHit f [] = Some False"
| "anyHit f (w # ws) =
     (case f w of None \<Rightarrow> None | Some True \<Rightarrow> Some True | Some False \<Rightarrow> anyHit f ws)"

fun firstHit :: "('a \<Rightarrow> bool raises) list \<Rightarrow> string list \<Rightarrow> 'a list \<Rightarrow> pystr raises" where
  "firstHit (f # fs) (n # ns) ws =
     (case anyHit f ws of None \<Rightarrow> None | Some True \<Rightarrow> Some (Some n)
      | Some False \<Rightarrow> firstHit fs ns ws)"
| "firstHit fs ns ws = Some None"

definition allWindows :: "'a list \<Rightarrow> 'a list list" where
  "allWindows cards =
     concat (map (\<lambda>j. map (\<lambda>k. window (window cards j 6) k 5) [0..<length (window cards j 6)])
                 [0..<length cards])"

text \<open>The position of a card's type in the ranking from Two (0) to Ace (12).\<close>

definition cardRank :: "card \<Rightarrow> nat" where
  "cardRank c = the (nameRank (getCardName c))"

text \<open>A card's name shows its own type and no other name of the ranking.\<close>

definition plainlyNamed :: "card \<Rightarrow> bool" where
  "plainlyNamed c =
     list_all (\<lambda>r. contains r (getCardName c) = (firstWord (getCardName c) = Some r)) cardRanking"

text \<open>The example table with the human's hole cards in the other order, before and after
  the showdown.\<close>

definition riverSwapped :: game where
  "riverSwapped =
     riverMatched\<lparr>userCard1 := Card ''Four of Spades'', userCard2 := Card ''Two of Hearts''\<rparr>"

definition riverSwappedShowdown :: game where
  "riverSwappedShowdown =
     riverShowdown\<lparr>userCard1 := Card ''Four of Spades'', userCard2 := Card ''Two of Hearts''\<rparr>"

text \<open>A table at the last bet on which the human has nothing left: a queen, a king, an
  ace, a two and a nine on display, two more aces in the human's hand.\<close>

definition crashDeck :: deck where
  "crashDeck =
     (let out = [Card ''Ace of Spades'', Card ''Ace of Hearts'', Card ''Two of Clubs'',
                 Card ''Three of Diamonds'', Card ''Queen of Diamonds'', Card ''King of Clubs'',
                 Card ''Ace of Diamonds'', Card ''Two of Spades'', Card ''Nine of Hearts'']
      in \<lparr>cardsInDeck = filter (\<lambda>c. c \<notin> set out) deck52, cardsOutOfDeck = out,
          deckMultiple = 1\<rparr>)"

definition crashBroke :: game where
  "crashBroke =
     riverBroke\<lparr>cardDeck := crashDeck,
                userCard1 := Card ''Ace of Spades'', userCard2 := Card ''Ace of Hearts'',
                displayCards := [Card ''Queen of Diamonds'', Card ''King of Clubs'',
                                 Card ''Ace of Diamonds'', Card ''Two of Spades'',
                                 Card ''Nine of Hearts'']\<rparr>"

section \<open>Sequences of deck operations\<close>

text \<open>The four operations that change a deck, and a run of them from left to right. A
  shuffle carries its random source, a return the list of cards handed back.\<close>

datatype deckOp = Shuffle "nat list" | Draw | ReturnAll | ReturnSpecific "card list"

fun applyOp :: "deck \<Rightarrow> deckOp \<Rightarrow> deck raises" where
  "applyOp d (Shuffle rs) = Some (shuffle rs d)"
| "applyOp d Draw = map_option snd (getCardFromDeck d)"
| "applyOp d ReturnAll = Some (addAllCardsBackIntoDeck d)"
| "applyOp d (ReturnSpecific cardList) = addSpecificCardsBackIntoDeck cardList d"

definition cardCount :: "deck \<Rightarrow> nat" where
  "cardCount d = length (cardsInDeck d) + length (cardsOutOfDeck d)"

definition sampleOps :: "deckOp list" where
  "sampleOps = [Shuffle [], Draw, Draw,
                ReturnSpecific [Card ''Ace of Hearts'', Card ''Joker''], Draw, ReturnAll]"

section \<open>The evaluator as the specification words it\<close>

text \<open>
  The reference evaluator of the specification: a card is a rank (0 for Two up to 12 for
  Ace) and a suit; the ten categories are ordered from strongest to weakest; a hand of
  seven cards has the first category, in that order, that one of its 21 five-card
  combinations satisfies, and \<open>HighCardOnly\<close> when none does. A card of the program is
  read through its own accessors \<open>getType\<close> and \<open>getSuit\<close>.
\<close>

type_synonym specCard = "nat \<times> string"

datatype category =
  RoyalFlush | StraightFlush | FourOfAKind | FullHouse | Flush | Straight
  | ThreeOfAKind | TwoPair | OnePair | HighCardOnly

definition specCard :: "card \<Rightarrow> specCard raises" where
  "specCard c = do { t \<leftarrow> getType c; r \<leftarrow> index cardRanking t; s \<leftarrow> getSuit c; Some (r, s) }"

fun specCards :: "card list \<Rightarrow> specCard list raises" where
  "specCards [] = Some []"
| "specCards (c # cs) = do { x \<leftarrow> specCard c; xs \<leftarrow> specCards cs; Some (x # xs) }"

text \<open>All ways of choosing \<open>n\<close> elements of a list, in the order of the list.\<close>

fun combinations :: "nat \<Rightarrow> 'a list \<Rightarrow> 'a list list" where
  "combinations 0 xs = [[]]"
| "combinations (Suc n) [] = []"
| "combinations (Suc n) (x # xs) = map (Cons x) (combinations n xs) @ combinations (Suc n) xs"

definition rankCount :: "specCard list \<Rightarrow> nat \<Rightarrow> nat" where
  "rankCount hand r = length (filter (\<lambda>c. fst c = r) hand)"

definition specFlush :: "specCard list \<Rightarrow> bool" where
  "specFlush hand = (\<forall>c \<in> set hand. snd c = snd (hd hand))"

definition specStraight :: "specCard list \<Rightarrow> bool" where
  "specStraight hand =
     (let rs = sort (map fst hand)
      in rs = [0, 1, 2, 3, 12] \<or> rs = map (\<lambda>i. hd rs + i) [0, 1, 2, 3, 4])"

definition specStraightFlush :: "specCard list \<Rightarrow> bool" where
  "specStraightFlush hand = (specFlush hand \<and> specStraight hand)"

definition specRoyalFlush :: "specCard list \<Rightarrow> bool" where
  "specRoyalFlush hand = (specStraightFlush hand \<and> set (map fst hand) = {8, 9, 10, 11, 12})"

definition specOfAKind :: "nat \<Rightarrow> specCard list \<Rightarrow> bool" where
  "specOfAKind x hand = (\<exists>c \<in> set hand. rankCount hand (fst c) = x)"

definition specFullHouse :: "specCard list \<Rightarrow> bool" where
  "specFullHouse hand =
     (\<exists>c \<in> set hand. \<exists>d \<in> set hand.
        fst c \<noteq> fst d \<and> rankCount hand (fst c) = 3 \<and> rankCount hand (fst d) = 2)"

definition specTwoPair :: "specCard list \<Rightarrow> bool" where
  "specTwoPair hand =
     (length (filter (\<lambda>r. rankCount hand r = 2) (remdups (map fst hand))) = 2)"

definition specTests :: "(category \<times> (specCard list \<Rightarrow> bool)) list" where
  "specTests = [(RoyalFlush, specRoyalFlush), (StraightFlush, specStraightFlush),
                (FourOfAKind, specOfAKind 4), (FullHouse, specFullHouse), (Flush, specFlush),
                (Straight, specStraight), (ThreeOfAKind, specOfAKind 3), (TwoPair, specTwoPair),
                (OnePair, specOfAKind 2)]"

fun firstCategory :: "(category \<times> (specCard list \<Rightarrow> bool)) list \<Rightarrow> specCard list list \<Rightarrow> category" where
  "firstCategory [] hands = HighCardOnly"
| "firstCategory ((cat, test) # tests) hands =
     (if list_ex test hands then cat else firstCategory tests hands)"

definition specEvaluate :: "specCard list \<Rightarrow> category" where
  "specEvaluate sevenCards = firstCategory specTests (combinations 5 sevenCards)"

text \<open>The category that a result of \<open>checkHand\<close> stands for: the label's position in
  \<open>_CARD_HANDS\<close>, and \<open>HighCardOnly\<close> for the name of a high card.\<close>

definition categoryOf :: "pystr \<Rightarrow> category" where
  "categoryOf h =
     (case h of None \<Rightarrow> HighCardOnly
      | Some name \<Rightarrow>
          (case index CARD_HANDS name of None \<Rightarrow> HighCardOnly
           | Some n \<Rightarrow> [RoyalFlush, StraightFlush, FourOfAKind, FullHouse, Flush, Straight,
                          ThreeOfAKind, TwoPair, OnePair, HighCardOnly] ! n))"

section \<open>Example hands\<close>


definition sevenHighHand :: "card list" where
  "sevenHighHand = [Card ''Seven of Hearts'', Card ''Eight of Spades'', Card ''Nine of Spades'',
                    Card ''Ten of Spades'', Card ''Jack of Spades'', Card ''Two of Diamonds'',
                    Card ''King of Clubs'']"

text \<open>Three aces with a queen and a king, and no pair besides.\<close>

definition threeAcesHand :: "card list" where
  "threeAcesHand = [Card ''Queen of Diamonds'', Card ''King of Clubs'', Card ''Ace of Diamonds'',
                    Card ''Two of Spades'', Card ''Nine of Hearts'', Card ''Ace of Spades'',
                    Card ''Ace of Hearts'']"

text \<open>A hand without any category, in two orders.\<close>

definition plainHand :: "card list" where
  "plainHand = [Card ''Two of Clubs'', Card ''Four of Diamonds'', Card ''Eight of Hearts'',
                Card ''Ten of Spades'', Card ''Queen of Clubs'', Card ''King of Diamonds'',
                Card ''Ace of Hearts'']"

definition plainHandTurned :: "card list" where
  "plainHandTurned = [Card ''King of Diamonds'', Card ''Ace of Hearts'', Card ''Eight of Hearts'',
                Card ''Ten of Spades'', Card ''Queen of Clubs'', Card ''Two of Clubs'',
                Card ''Four of Diamonds'']"

text \<open>The same seven cards with the first two cards on display exchanged.\<close>

definition sevenHighTurned :: "card list" where
  "sevenHighTurned = [Card ''Eight of Spades'', Card ''Seven of Hearts'', Card ''Nine of Spades'',
                    Card ''Ten of Spades'', Card ''Jack of Spades'', Card ''Two of Diamonds'',
                    Card ''King of Clubs'']"

text \<open>
  A game in which the human only ever clicks at (215, 45), a point that lies on the raise
  button and on the button for a new round, once every two seconds, and no new round
  shuffles by more than turning the deck over. \<open>restCards\<close> are the 43 cards that are never
  dealt in it, \<open>firstDeck\<close> is the deck after the two shuffles of \<open>startGame [] [48]\<close>.
\<close>

definition clicks :: "rat list \<Rightarrow> (rat \<times> event list) list" where
  "clicks ts = map (\<lambda>t. (t, [MouseButtonDown (215, 45) t []])) ts"

definition restCards :: "card list" where
  "restCards = take 3 deck52 @ drop 4 (take 44 deck52)"

definition firstDeck :: "card list" where
  "firstDeck = restCards @
     [Card ''Queen of Clubs'', Card ''Queen of Diamonds'', Card ''Queen of Hearts'',
      Card ''Queen of Spades'', Card ''King of Clubs'', Card ''King of Diamonds'',
      Card ''King of Hearts'', Card ''King of Spades'', Card ''Ace of Spades'']"

section \<open>Verified properties\<close>

subsection \<open>The exchange sort of \<open>isStraight\<close>\<close>

lemma length_sel [simp]: "length (snd (sel key x xs)) = length xs"
  by (induction xs arbitrary: x) auto

termination exsort
  by (relation "measure (\<lambda>(key, xs). length xs)") auto

lemma mset_sel: "mset (fst (sel key x xs) # snd (sel key x xs)) = mset (x # xs)"
  by (induction xs arbitrary: x) auto

lemma sel_least:
  "key (fst (sel key x xs)) \<le> key x \<and> (\<forall>z \<in> set xs. key (fst (sel key x xs)) \<le> key z)"
proof (induction xs arbitrary: x)
  case Nil
  show ?case by simp
next
  case (Cons y ys)
  from Cons [of x] Cons [of y] show ?case by (simp; linarith)
qed

lemma sel_least_snd: "z \<in> set (snd (sel key x xs)) \<Longrightarrow> key (fst (sel key x xs)) \<le> key z"
proof -
  assume "z \<in> set (snd (sel key x xs))"
  then have "z \<in># mset (fst (sel key x xs) # snd (sel key x xs))" by simp
  then have "z \<in># mset (x # xs)" by (simp only: mset_sel)
  then have "z = x \<or> z \<in> set xs" by auto
  with sel_least [of key x xs] show ?thesis by auto
qed

lemma mset_exsort: "mset (exsort key xs) = mset xs"
proof (induction key xs rule: exsort.induct)
  case (1 key) show ?case by simp
next
  case (2 key x xs)
  have "mset (exsort key (x # xs)) = mset (fst (sel key x xs) # snd (sel key x xs))"
    using 2 by simp
  then show ?case by (simp only: mset_sel)
qed

lemma set_exsort: "set (exsort key xs) = set xs"
  by (metis mset_exsort set_mset_mset)

lemma sorted_exsort: "sorted (map key (exsort key xs))"
  by (induction key xs rule: exsort.induct) (auto simp: set_exsort sel_least_snd)

lemma length_exsort [simp]: "length (exsort key xs) = length xs"
  by (metis mset_exsort size_mset)

lemma map_key_exsort: "map key (exsort key xs) = sort (map key xs)"
proof -
  have "mset (map key (exsort key xs)) = mset (map key xs)"
    by (simp add: mset_exsort)
  then show ?thesis using sorted_exsort [of key xs]
    by (metis properties_for_sort)
qed


lemma swapStep_readable:
  assumes "firstWord (temp ! i) \<noteq> None" "firstWord (temp ! j) \<noteq> None"
  shows "swapStep i temp j =
           Some (if nameKey (temp ! i) > nameKey (temp ! j)
                 then temp[j := temp ! i, i := temp ! j] else temp)"
  using assms by (auto simp: swapStep_def nameKey_def Let_def)

lemma inner_loop:
  assumes "\<forall>n \<in> set (x # rest). firstWord n \<noteq> None"
  shows "forEach [length pre + 1 + length done ..< length pre + 1 + length done + length rest]
           (swapStep (length pre)) (pre @ x # done @ rest)
         = Some (pre @ fst (sel nameKey x rest) # done @ snd (sel nameKey x rest))"
  using assms
proof (induction rest arbitrary: x "done")
  case Nil
  show ?case by simp
next
  case (Cons y ys)
  let ?a = "length pre + 1 + length done"
  let ?temp = "pre @ x # done @ y # ys"
  have rng: "[?a ..< ?a + length (y # ys)] = ?a # [Suc ?a ..< Suc ?a + length ys]"
    by (subst upt_rec) simp
  have ti: "?temp ! length pre = x" by simp
  have tj: "?temp ! ?a = y" by (simp add: nth_append)
  have rd: "firstWord x \<noteq> None" "firstWord y \<noteq> None" using Cons.prems by auto
  have step: "swapStep (length pre) ?temp ?a =
                Some (if nameKey x > nameKey y then ?temp[?a := x, length pre := y] else ?temp)"
  proof -
    have "firstWord (?temp ! length pre) \<noteq> None" "firstWord (?temp ! ?a) \<noteq> None"
      using rd ti tj by simp_all
    from swapStep_readable [OF this] show ?thesis by (simp only: ti tj)
  qed
  show ?case
  proof (cases "nameKey x > nameKey y")
    case True
    have upd: "?temp[?a := x, length pre := y] = pre @ y # (done @ [x]) @ ys"
      by (simp add: list_update_append)
    have "forEach [Suc ?a ..< Suc ?a + length ys] (swapStep (length pre)) (pre @ y # (done @ [x]) @ ys)
          = Some (pre @ fst (sel nameKey y ys) # (done @ [x]) @ snd (sel nameKey y ys))"
      using Cons.IH [of y "done @ [x]"] Cons.prems by simp
    with True step upd show ?thesis by (simp only: rng forEach.simps) simp
  next
    case False
    have "forEach [Suc ?a ..< Suc ?a + length ys] (swapStep (length pre)) (pre @ x # (done @ [y]) @ ys)
          = Some (pre @ fst (sel nameKey x ys) # (done @ [y]) @ snd (sel nameKey x ys))"
      using Cons.IH [of x "done @ [y]"] Cons.prems by simp
    with False step show ?thesis by (simp only: rng forEach.simps) simp
  qed
qed

lemma set_sel: "set (snd (sel key x xs)) \<subseteq> insert x (set xs)"
proof -
  have "set (fst (sel key x xs) # snd (sel key x xs)) = set (x # xs)"
    using mset_sel [of key x xs] by (metis set_mset_mset)
  then show ?thesis by auto
qed

lemma outer_loop:
  assumes "\<forall>n \<in> set xs. firstWord n \<noteq> None"
  shows "forEach [length pre ..< length pre + length xs]
           (\<lambda>temp i. forEach [i + 1 ..< length pre + length xs] (swapStep i) temp) (pre @ xs)
         = Some (pre @ exsort nameKey xs)"
  using assms
proof (induction nameKey xs arbitrary: pre rule: exsort.induct)
  case 1
  show ?case by simp
next
  case (2 x xs)
  let ?m = "fst (sel nameKey x xs)" and ?zs = "snd (sel nameKey x xs)"
  have rng: "[length pre ..< length pre + length (x # xs)]
               = length pre # [Suc (length pre) ..< Suc (length pre) + length xs]"
    by (subst upt_rec) simp
  have inner: "forEach [length pre + 1 ..< length pre + length (x # xs)] (swapStep (length pre)) (pre @ x # xs)
               = Some (pre @ ?m # ?zs)"
    using inner_loop [of x xs pre "[]"] 2(2) by simp
  have rd: "\<forall>n \<in> set ?zs. firstWord n \<noteq> None"
    using set_sel [of nameKey x xs] 2(2) by auto
  have "forEach [length (pre @ [?m]) ..< length (pre @ [?m]) + length ?zs]
          (\<lambda>temp i. forEach [i + 1 ..< length (pre @ [?m]) + length ?zs] (swapStep i) temp)
          ((pre @ [?m]) @ ?zs)
        = Some ((pre @ [?m]) @ exsort nameKey ?zs)"
    using 2(1) [of "pre @ [?m]"] rd by blast
  then have rest: "forEach [Suc (length pre) ..< Suc (length pre) + length xs]
          (\<lambda>temp i. forEach [i + 1 ..< length pre + length (x # xs)] (swapStep i) temp)
          (pre @ ?m # ?zs)
        = Some (pre @ ?m # exsort nameKey ?zs)"
    by simp
  show ?case
    by (simp only: rng forEach.simps inner option.case rest) simp
qed

lemma sortNames_exsort:
  assumes "\<forall>n \<in> set names. firstWord n \<noteq> None"
  shows "sortNames names = Some (exsort nameKey names)"
  using outer_loop [of names "[]"] assms by (simp add: sortNames_def)

subsection \<open>Suit letters\<close>

lemma flushChars_Suc:
  "flushChars (Suc i) n letter =
     (if list_all (\<lambda>x. x = letter) (filter isSuitLetter n) then Some letter else None)"
  by (induction n) auto

lemma flushNames_Suc:
  "flushNames (Suc i) ns letter =
     list_all (\<lambda>n. list_all (\<lambda>x. x = letter) (filter isSuitLetter n)) ns"
  by (induction ns arbitrary: i) (auto simp: flushChars_Suc)

lemma flushChars_0:
  "flushChars 0 n letter = Some (case filter isSuitLetter n of [] \<Rightarrow> letter | x # _ \<Rightarrow> x)"
  by (induction n) auto

lemma isFlush_letters: "isFlush cards = flushLetters (map lettersOf cards)"
  by (cases cards)
     (simp_all add: isFlush_def flushChars_0 flushNames_Suc lettersOf_def list_all_iff Let_def)

subsection \<open>Ranks\<close>

lemma item_nth: "item xs i = (if i < length xs then Some (xs ! i) else None)"
  by (induction xs i rule: item.induct) auto

lemma index_Some: "index xs x = Some k \<Longrightarrow> k < length xs \<and> xs ! k = x"
  by (induction xs arbitrary: k) (auto split: if_splits)

lemma index_nth_iff:
  "distinct xs \<Longrightarrow> index xs x = Some k \<Longrightarrow> j < length xs \<Longrightarrow> (xs ! j = x) = (j = k)"
  using index_Some [of xs x k] by (auto simp: nth_eq_iff_index_eq)

lemma rankValue_upto:
  assumes "distinct xs" "index xs w = Some k" "m \<le> length xs"
  shows "foldl (\<lambda>v j. if xs ! j = w then j else v) 0 [0..<m] = (if k < m then k else 0)"
  using assms(3)
proof (induction m)
  case 0 show ?case by simp
next
  case (Suc m)
  then have "m < length xs" by simp
  with index_nth_iff [OF assms(1,2), of m] Suc show ?case by auto
qed

lemma rankValue_index:
  "distinct xs \<Longrightarrow> index xs w = Some k \<Longrightarrow> rankValue xs w = k"
  using rankValue_upto [of xs w k "length xs"] index_Some [of xs w k]
  by (simp add: rankValue_def)

lemma distinct_cardRanking: "distinct cardRanking"
  by (simp add: cardRanking_def TYPES_def)

lemma length_cardRanking: "length cardRanking = 13"
  by (simp add: cardRanking_def TYPES_def)

lemma nameRank_word:
  "nameRank n = Some k \<Longrightarrow> \<exists>w. firstWord n = Some w \<and> index cardRanking w = Some k"
  by (auto simp: nameRank_def split: option.splits)

lemma nameKey_rank: "nameRank n = Some k \<Longrightarrow> nameKey n = k"
  by (auto simp: nameKey_def dest!: nameRank_word intro: rankValue_index distinct_cardRanking)

lemma nameRank_lt: "nameRank n = Some k \<Longrightarrow> k < 13"
  using index_Some length_cardRanking by (fastforce dest!: nameRank_word)

lemma word_is_rank:
  assumes "nameRank n = Some k" "firstWord n = Some w" "j < 13"
  shows "(w = cardRanking ! j) = (k = j)"
  using assms index_nth_iff [OF distinct_cardRanking, of w k j]
  by (auto simp: nameRank_def length_cardRanking)

lemma runFrom_ranks:
  assumes "\<forall>n \<in> set temp. nameRank n \<noteq> None" "\<forall>i \<in> set idx. i < length temp"
  shows "runFrom start idx temp = runRanks start idx (map (the \<circ> nameRank) temp)"
  using assms(2)
proof (induction idx)
  case Nil
  show ?case by simp
next
  case (Cons i idx)
  then have i: "i < length temp" by simp
  then obtain k where k: "nameRank (temp ! i) = Some k" using assms(1) by fastforce
  then obtain w where w: "firstWord (temp ! i) = Some w" by (auto dest: nameRank_word)
  show ?case
  proof (cases "start + i \<ge> 13")
    case True
    then show ?thesis using w by (simp add: item_nth length_cardRanking)
  next
    case False
    then have "(w = cardRanking ! (start + i)) = (k = start + i)"
      using word_is_rank [OF k w] by simp
    with False w k i Cons show ?thesis
      by (simp add: item_nth length_cardRanking)
  qed
qed


lemma straight_after_sort:
  assumes rk: "\<forall>n \<in> set temp. nameRank n \<noteq> None"
  shows "do { t4 \<leftarrow> item temp 4;
              w4 \<leftarrow> firstWord t4;
              temp' \<leftarrow> (if w4 = ''Ace'' then
                          do { t0 \<leftarrow> item temp 0; w0 \<leftarrow> firstWord t0;
                               Some (if w0 = ''Two'' then take 4 temp @ drop 5 temp else temp) }
                        else Some temp);
              t0 \<leftarrow> item temp' 0;
              w0 \<leftarrow> firstWord t0;
              runFrom (rankValue cardRanking w0) [1..<length temp'] temp' }
         = straightRanks (map (the \<circ> nameRank) temp)"
proof (cases "length temp < 5")
  case True
  then show ?thesis by (simp add: straightRanks_def item_nth)
next
  case False
  then have len: "4 < length temp" "0 < length temp" by auto
  obtain k4 w4 where k4: "nameRank (temp ! 4) = Some k4" and w4: "firstWord (temp ! 4) = Some w4"
    using rk len(1) by (metis nameRank_word not_None_eq nth_mem)
  obtain k0 w0 where k0: "nameRank (temp ! 0) = Some k0" and w0: "firstWord (temp ! 0) = Some w0"
    using rk len(2) by (metis nameRank_word not_None_eq nth_mem)
  have ace: "(w4 = ''Ace'') = (k4 = 12)"
    using word_is_rank [OF k4 w4, of 12] by (simp add: cardRanking_def TYPES_def)
  have two: "(w0 = ''Two'') = (k0 = 0)"
    using word_is_rank [OF k0 w0, of 0] by (simp add: cardRanking_def TYPES_def)
  let ?ks = "map (the \<circ> nameRank) temp"
  let ?temp' = "if k4 = 12 \<and> k0 = 0 then take 4 temp @ drop 5 temp else temp"
  have rk': "\<forall>n \<in> set ?temp'. nameRank n \<noteq> None"
    using rk by (auto dest: in_set_takeD in_set_dropD)
  have ne: "0 < length ?temp'" using len by auto
  have hd': "?temp' ! 0 = temp ! 0" using len by (auto simp: nth_append)
  have key0: "rankValue cardRanking w0 = k0"
    using k0 w0 nameKey_rank [OF k0] by (simp add: nameKey_def)
  have run: "runFrom k0 [1..<length ?temp'] ?temp'
             = runRanks k0 [1..<length ?temp'] (map (the \<circ> nameRank) ?temp')"
    by (rule runFrom_ranks [OF rk']) simp
  have lhs: "do { t4 \<leftarrow> item temp 4;
              w4 \<leftarrow> firstWord t4;
              temp' \<leftarrow> (if w4 = ''Ace'' then
                          do { t0 \<leftarrow> item temp 0; w0 \<leftarrow> firstWord t0;
                               Some (if w0 = ''Two'' then take 4 temp @ drop 5 temp else temp) }
                        else Some temp);
              t0 \<leftarrow> item temp' 0;
              w0 \<leftarrow> firstWord t0;
              runFrom (rankValue cardRanking w0) [1..<length temp'] temp' }
         = runFrom k0 [1..<length ?temp'] ?temp'"
    using len w4 w0 ace two key0 by (simp add: item_nth nth_append)
  have rhs: "straightRanks ?ks = runRanks k0 [1..<length ?temp'] (map (the \<circ> nameRank) ?temp')"
    using len k4 k0 by (simp add: straightRanks_def item_nth Let_def take_map drop_map nth_append)
  show ?thesis by (simp only: lhs rhs run)
qed

lemma isStraight_ranks:
  assumes "\<forall>c \<in> set cards. nameRank (getCardName c) \<noteq> None"
  shows "isStraight cards = straightRanks (sort (map (the \<circ> nameRank \<circ> getCardName) cards))"
proof -
  let ?names = "map getCardName cards"
  have rk: "\<forall>n \<in> set ?names. nameRank n \<noteq> None" using assms by simp
  then have rd: "\<forall>n \<in> set ?names. firstWord n \<noteq> None"
    by (auto simp: nameRank_def split: option.splits)
  have rk': "\<forall>n \<in> set (exsort nameKey ?names). nameRank n \<noteq> None"
    using rk by (simp only: set_exsort)
  have keys: "map (the \<circ> nameRank) (exsort nameKey ?names) = map nameKey (exsort nameKey ?names)"
    using rk' by (auto simp: nameKey_rank)
  have keys0: "map nameKey ?names = map (the \<circ> nameRank) ?names"
    using rk by (auto simp: nameKey_rank)
  have "isStraight cards = straightRanks (map (the \<circ> nameRank) (exsort nameKey ?names))"
    unfolding isStraight_def sortNames_exsort [OF rd]
    using straight_after_sort [OF rk'] by simp
  also have "\<dots> = straightRanks (sort (map nameKey ?names))"
    by (simp only: keys map_key_exsort)
  finally show ?thesis by (simp only: keys0) (simp add: comp_def)
qed

subsection \<open>Counting ranks\<close>

lemma countWord_upto:
  assumes "index cardRanking w = Some k" "m \<le> 13"
  shows "foldl (\<lambda>oc j. if cardRanking ! j = w then oc[j := oc ! j + 1] else oc) occ [0..<m]
         = (if k < m then occ[k := occ ! k + 1] else occ)"
  using assms(2)
proof (induction m)
  case 0 show ?case by simp
next
  case (Suc m)
  then have "m < length cardRanking" by (simp add: length_cardRanking)
  with index_nth_iff [OF distinct_cardRanking assms(1), of m] Suc show ?case by auto
qed

lemma countWord_rank:
  "index cardRanking w = Some k \<Longrightarrow> countWord w occ = occ[k := occ ! k + 1]"
  using countWord_upto [of w k 13 occ] index_Some [of cardRanking w k]
  by (simp add: countWord_def length_cardRanking)

lemma forEach_total:
  "\<forall>x \<in> set xs. \<forall>s. body s x = Some (f s x) \<Longrightarrow> forEach xs body s = Some (foldl f s xs)"
  by (induction xs arbitrary: s) auto

lemma bump_counts:
  "\<forall>k \<in> set ks. k < length occ \<Longrightarrow>
   foldl (\<lambda>oc k. oc[k := oc ! k + 1]) occ ks
     = map (\<lambda>j. occ ! j + count_list ks j) [0..<length occ]"
proof (induction ks arbitrary: occ)
  case Nil
  show ?case by (simp add: map_nth)
next
  case (Cons k ks)
  have "foldl (\<lambda>oc k. oc[k := oc ! k + 1]) (occ[k := occ ! k + 1]) ks
        = map (\<lambda>j. occ[k := occ ! k + 1] ! j + count_list ks j) [0..<length occ]"
    using Cons.IH [of "occ[k := occ ! k + 1]"] Cons.prems by simp
  then show ?case using Cons.prems by (auto simp: nth_list_update)
qed

lemma occurrences_ranks:
  assumes "\<forall>c \<in> set cards. nameRank (getCardName c) \<noteq> None"
  shows "occurrences cards = Some (countRanks (map (the \<circ> nameRank \<circ> getCardName) cards))"
proof -
  let ?names = "map getCardName cards"
  let ?f = "\<lambda>occ n. occ[the (nameRank n) := occ ! the (nameRank n) + 1]"
  have body: "\<forall>n \<in> set ?names. \<forall>occ.
                do { w \<leftarrow> firstWord n; Some (countWord w occ) } = Some (?f occ n)"
  proof (intro ballI allI)
    fix n occ assume "n \<in> set ?names"
    then obtain k where k: "nameRank n = Some k" using assms by auto
    then obtain w where "firstWord n = Some w" "index cardRanking w = Some k"
      by (auto dest: nameRank_word)
    then show "do { w \<leftarrow> firstWord n; Some (countWord w occ) } = Some (?f occ n)"
      using k by (simp add: countWord_rank)
  qed
  have "occurrences cards = Some (foldl ?f (replicate (length TYPES) 0) ?names)"
    unfolding occurrences_def by (rule forEach_total [OF body])
  also have "foldl ?f (replicate (length TYPES) 0) ?names
             = foldl (\<lambda>oc k. oc[k := oc ! k + 1]) (replicate 13 0) (map (the \<circ> nameRank) ?names)"
  proof -
    have "length TYPES = 13" by (simp add: TYPES_def)
    then show ?thesis by (simp add: foldl_map)
  qed
  also have "\<dots> = map (\<lambda>j. replicate 13 0 ! j + count_list (map (the \<circ> nameRank) ?names) j) [0..<13]"
  proof -
    have "\<forall>k \<in> set (map (the \<circ> nameRank) ?names). k < length (replicate 13 (0::nat))"
      using assms nameRank_lt by fastforce
    from bump_counts [OF this] show ?thesis by simp
  qed
  also have "\<dots> = countRanks (map (the \<circ> nameRank \<circ> getCardName) cards)"
    by (simp add: countRanks_def comp_def)
  finally show ?thesis .
qed

subsection \<open>The royal flush\<close>

lemma crossOut_map:
  "w \<noteq> ''*'' \<Longrightarrow> distinct (filter (\<lambda>n. n \<noteq> ''*'') needed) \<Longrightarrow>
   crossOut w needed = map (\<lambda>n. if n = w then ''*'' else n) needed"
proof (induction needed)
  case Nil show ?case by simp
next
  case (Cons n ns)
  show ?case
  proof (cases "w = n")
    case True
    with Cons.prems have "w \<notin> set ns" by auto
    then have "map (\<lambda>n. if n = w then ''*'' else n) ns = ns" by (induction ns) auto
    with True show ?thesis by simp
  next
    case False
    with Cons show ?thesis by (auto split: if_splits)
  qed
qed

lemma cross_names:
  assumes "distinct needed0" "''*'' \<notin> set needed0"
    and "\<forall>n \<in> set names. \<exists>w. firstWord n = Some w \<and> w \<noteq> ''*''"
  shows "forEach names (\<lambda>needed v. do { w \<leftarrow> firstWord v; Some (crossOut w needed) })
           (map (\<lambda>n. if n \<in> A then ''*'' else n) needed0)
         = Some (map (\<lambda>n. if n \<in> A \<union> (the \<circ> firstWord) ` set names then ''*'' else n) needed0)"
  using assms(3)
proof (induction names arbitrary: A)
  case Nil show ?case by simp
next
  case (Cons v names)
  then obtain w where w: "firstWord v = Some w" "w \<noteq> ''*''" by auto
  let ?cur = "map (\<lambda>n. if n \<in> A then ''*'' else n) needed0"
  have "filter (\<lambda>n. n \<noteq> ''*'') ?cur = filter (\<lambda>n. n \<notin> A) needed0"
    using assms(2) by (induction needed0) auto
  then have "distinct (filter (\<lambda>n. n \<noteq> ''*'') ?cur)" using assms(1) by simp
  from crossOut_map [OF w(2) this]
  have "crossOut w ?cur = map (\<lambda>n. if n \<in> insert w A then ''*'' else n) needed0"
    using w(2) by auto
  moreover have "forEach names (\<lambda>needed v. do { w \<leftarrow> firstWord v; Some (crossOut w needed) })
           (map (\<lambda>n. if n \<in> insert w A then ''*'' else n) needed0)
         = Some (map (\<lambda>n. if n \<in> insert w A \<union> (the \<circ> firstWord) ` set names then ''*'' else n) needed0)"
    using Cons.IH [of "insert w A"] Cons.prems by simp
  ultimately show ?case using w by simp
qed

lemma isRoyalFlush_ranks:
  assumes "\<forall>c \<in> set cards. nameRank (getCardName c) \<noteq> None"
  shows "isRoyalFlush cards =
           Some (isFlush cards \<and>
                 list_all (\<lambda>k. k \<in> set (map (the \<circ> nameRank \<circ> getCardName) cards)) [8, 9, 10, 11, 12])"
proof (cases "isFlush cards")
  case False
  then show ?thesis by (simp add: isRoyalFlush_def)
next
  case True
  let ?names = "map getCardName cards"
  let ?needed0 = "[''Ten'', ''Jack'', ''Queen'', ''King'', ''Ace'']"
  have words: "\<forall>n \<in> set ?names. \<exists>w. firstWord n = Some w \<and> w \<noteq> ''*''"
  proof
    fix n assume "n \<in> set ?names"
    then obtain k where "nameRank n = Some k" using assms by auto
    then obtain w where w: "firstWord n = Some w" "index cardRanking w = Some k"
      by (auto dest: nameRank_word)
    then have "w \<in> set cardRanking" using index_Some [of cardRanking w k] by auto
    then have "w \<noteq> ''*''" by (auto simp: cardRanking_def TYPES_def)
    with w show "\<exists>w. firstWord n = Some w \<and> w \<noteq> ''*''" by simp
  qed
  have "forEach ?names (\<lambda>needed v. do { w \<leftarrow> firstWord v; Some (crossOut w needed) })
           (map (\<lambda>n. if n \<in> {} then ''*'' else n) ?needed0)
         = Some (map (\<lambda>n. if n \<in> {} \<union> (the \<circ> firstWord) ` set ?names then ''*'' else n) ?needed0)"
    by (rule cross_names [OF _ _ words]) simp_all
  then have fe: "forEach ?names (\<lambda>needed v. do { w \<leftarrow> firstWord v; Some (crossOut w needed) }) ?needed0
         = Some (map (\<lambda>n. if n \<in> (the \<circ> firstWord) ` set ?names then ''*'' else n) ?needed0)"
    by simp
  have mem: "(cardRanking ! j \<in> (the \<circ> firstWord) ` set ?names)
             = (j \<in> set (map (the \<circ> nameRank \<circ> getCardName) cards))" if j: "j < 13" for j
  proof
    assume "cardRanking ! j \<in> (the \<circ> firstWord) ` set ?names"
    then obtain c where c: "c \<in> set cards" "cardRanking ! j = the (firstWord (getCardName c))"
      by auto
    then obtain k where k: "nameRank (getCardName c) = Some k" using assms by auto
    then obtain w where w: "firstWord (getCardName c) = Some w" by (auto dest: nameRank_word)
    with word_is_rank [OF k w j] c have "k = j" by simp
    with k c show "j \<in> set (map (the \<circ> nameRank \<circ> getCardName) cards)" by force
  next
    assume "j \<in> set (map (the \<circ> nameRank \<circ> getCardName) cards)"
    then obtain c where c: "c \<in> set cards" "j = the (nameRank (getCardName c))" by auto
    then obtain k where k: "nameRank (getCardName c) = Some k" using assms by auto
    then obtain w where w: "firstWord (getCardName c) = Some w" by (auto dest: nameRank_word)
    with word_is_rank [OF k w j] c k have "w = cardRanking ! j" by simp
    with w c show "cardRanking ! j \<in> (the \<circ> firstWord) ` set ?names" by force
  qed
  have names5: "?needed0 = map (\<lambda>j. cardRanking ! j) [8, 9, 10, 11, 12]"
    by (simp add: cardRanking_def TYPES_def)
  have "list_all (\<lambda>s. s = ''*'')
          (map (\<lambda>n. if n \<in> (the \<circ> firstWord) ` set ?names then ''*'' else n) ?needed0)
        = list_all (\<lambda>k. k \<in> set (map (the \<circ> nameRank \<circ> getCardName) cards)) [8, 9, 10, 11, 12]"
    unfolding names5 using mem [of 8] mem [of 9] mem [of 10] mem [of 11] mem [of 12]
    by (simp add: cardRanking_def TYPES_def)
  with True fe show ?thesis
    by (simp add: isRoyalFlush_def TYPES_def)
qed

subsection \<open>The loops of \<open>checkHand\<close>\<close>

lemma forReturn_cong:
  "\<forall>i \<in> set idx. body i = body' i \<Longrightarrow> forReturn idx body = forReturn idx body'"
  by (induction idx) (auto split: option.splits)

lemma window_map: "window (map f xs) start n = map f (window xs start n)"
  by (simp add: window_def slice_def Let_def drop_map take_map)

lemma set_window: "set (window xs start n) \<subseteq> set xs"
  by (auto simp: window_def slice_def Let_def dest: in_set_takeD in_set_dropD)

lemma view_ranks: "map fst (map view hand) = map (the \<circ> nameRank \<circ> getCardName) hand"
  by (simp add: view_def comp_def)

lemma view_letters: "map snd (map view hand) = map lettersOf hand"
  by (simp add: view_def comp_def)

lemma isXofAKind_views:
  assumes "\<forall>c \<in> set hand. ranked c" "X \<le> 4"
  shows "isXofAKind hand (int X) = vXofAKind (map view hand) X"
  using assms occurrences_ranks [of hand]
  by (simp add: isXofAKind_def vXofAKind_def ranked_def view_ranks del: map_map)

lemma function_views:
  assumes "\<forall>c \<in> set hand. ranked c" "i < 9"
  shows "(handFunctions ! i) hand = (viewFunctions ! i) (map view hand)"
proof -
  have rk: "\<forall>c \<in> set hand. nameRank (getCardName c) \<noteq> None"
    using assms(1) by (simp add: ranked_def)
  have fl: "isFlush hand = vFlush (map view hand)"
    by (simp only: isFlush_letters vFlush_def view_letters)
  have st: "isStraight hand = vStraight (map view hand)"
    by (simp only: isStraight_ranks [OF rk] vStraight_def view_ranks)
  have ro: "isRoyalFlush hand = vRoyalFlush (map view hand)"
    by (simp only: isRoyalFlush_ranks [OF rk] vRoyalFlush_def view_ranks fl)
  have x2: "isXofAKind hand 2 = vXofAKind (map view hand) 2"
    using isXofAKind_views [OF assms(1), of 2] by simp
  have x3: "isXofAKind hand 3 = vXofAKind (map view hand) 3"
    using isXofAKind_views [OF assms(1), of 3] by simp
  have x4: "isXofAKind hand 4 = vXofAKind (map view hand) 4"
    using isXofAKind_views [OF assms(1), of 4] by simp
  have tp: "isTwoPairs hand = vTwoPairs (map view hand)"
    using occurrences_ranks [OF rk]
    by (simp add: isTwoPairs_def vTwoPairs_def view_ranks del: map_map)
  have fh: "isFullHouse hand = vFullHouse (map view hand)"
    by (simp add: isFullHouse_def vFullHouse_def x2 x3 vXofAKind_def del: map_map)
  have sf: "isStraightFlush hand = vStraightFlush (map view hand)"
    by (simp add: isStraightFlush_def vStraightFlush_def fl st)
  have "map (\<lambda>test. test hand) handFunctions
        = map (\<lambda>test. test (map view hand)) viewFunctions"
    by (simp add: handFunctions_def viewFunctions_def ro sf x4 fh fl st x3 tp x2
          isFourOfAKind_def isThreeOfAKind_def isOnePair_def)
  then have "map (\<lambda>test. test hand) handFunctions ! i
             = map (\<lambda>test. test (map view hand)) viewFunctions ! i"
    by simp
  moreover have "i < length handFunctions" "i < length viewFunctions"
    using assms(2) by (simp_all add: handFunctions_def viewFunctions_def)
  ultimately show ?thesis by simp
qed

lemma checkHandCards_views:
  assumes "\<forall>c \<in> set cards. ranked c"
  shows "checkHandCards cards =
           do { found \<leftarrow> checkViews (map view cards);
                Some (case found of Some hand \<Rightarrow> Some hand
                      | None \<Rightarrow> getHighCard (drop 5 cards)) }"
proof -
  have len: "length handFunctions = 9" "length viewFunctions = 9"
    by (simp_all add: handFunctions_def viewFunctions_def)
  have inner: "forReturn [0..<length (window (window cards j 6) 0 0 @ window cards j 6)] (\<lambda>k.
                  let temp = window (window cards j 6) k 5 in
                  do { hit \<leftarrow> (handFunctions ! i) temp;
                       Some (if hit then Some (CARD_HANDS ! i) else None) })
               = forReturn [0..<length (window (map view cards) j 6)] (\<lambda>k.
                  let temp = window (window (map view cards) j 6) k 5 in
                  do { hit \<leftarrow> (viewFunctions ! i) temp;
                       Some (if hit then Some (CARD_HANDS ! i) else None) })"
    if "i < 9" for i j
  proof -
    have l: "length (window (window cards j 6) 0 0 @ window cards j 6)
             = length (window (map view cards) j 6)"
      by (simp add: window_map) (simp add: window_def slice_def)
    show ?thesis unfolding l
    proof (rule forReturn_cong, rule ballI)
      fix k
      have "\<forall>c \<in> set (window (window cards j 6) k 5). ranked c"
        using assms set_window by (meson subsetD)
      from function_views [OF this that] show
        "(let temp = window (window cards j 6) k 5 in
          do { hit \<leftarrow> (handFunctions ! i) temp;
               Some (if hit then Some (CARD_HANDS ! i) else None) })
         = (let temp = window (window (map view cards) j 6) k 5 in
          do { hit \<leftarrow> (viewFunctions ! i) temp;
               Some (if hit then Some (CARD_HANDS ! i) else None) })"
        by (simp add: window_map)
    qed
  qed
  have l0: "length (window (window cards j 6) 0 0 @ window cards j 6) = length (window cards j 6)"
    for j by (simp add: window_def slice_def)
  have "forReturn [0..<length handFunctions] (\<lambda>i.
              forReturn [0..<length cards] (\<lambda>j.
                let specificCards = window cards j 6 in
                forReturn [0..<length specificCards] (\<lambda>k.
                  let temp = window specificCards k 5 in
                  do { hit \<leftarrow> (handFunctions ! i) temp;
                       Some (if hit then Some (CARD_HANDS ! i) else None) })))
        = checkViews (map view cards)"
    unfolding checkViews_def len Let_def
    apply (rule forReturn_cong, rule ballI)
    apply (simp only: length_map)
    apply (rule forReturn_cong, rule ballI)
    using inner [unfolded l0 Let_def] apply simp
    done
  then show ?thesis by (simp add: checkHandCards_def)
qed

lemma anyHit_append:
  "anyHit f (xs @ ys) =
     (case anyHit f xs of None \<Rightarrow> None | Some True \<Rightarrow> Some True | Some False \<Rightarrow> anyHit f ys)"
  by (induction xs) (auto split: option.splits bool.splits)

lemma forReturn_anyHit:
  "forReturn idx (\<lambda>k. do { hit \<leftarrow> f (g k); Some (if hit then Some n else None) })
   = map_option (\<lambda>b. if b then Some n else None) (anyHit f (map g idx))"
  by (induction idx) (auto split: option.splits bool.splits)

lemma forReturn_concat:
  "forReturn idx (\<lambda>j. map_option (\<lambda>b. if b then Some n else None) (anyHit f (ws j)))
   = map_option (\<lambda>b. if b then Some n else None) (anyHit f (concat (map ws idx)))"
  by (induction idx) (auto simp: anyHit_append split: option.splits bool.splits)

lemma checkViews_function:
  "forReturn [0..<length vs] (\<lambda>j.
         let specific = window vs j 6 in
         forReturn [0..<length specific] (\<lambda>k.
           let temp = window specific k 5 in
           do { hit \<leftarrow> f temp;
                Some (if hit then Some n else None) }))
   = map_option (\<lambda>b. if b then Some n else None) (anyHit f (allWindows vs))"
  unfolding Let_def allWindows_def
  by (simp only: forReturn_anyHit [where g = "\<lambda>k. window (window vs j 6) k 5" for j] forReturn_concat)

lemma forReturn_firstHit:
  "length ns \<ge> length fs \<Longrightarrow>
   forReturn [0..<length fs]
     (\<lambda>i. map_option (\<lambda>b. if b then Some ((pre @ ns) ! (length pre + i)) else None) (anyHit (fs ! i) ws))
   = firstHit fs ns ws"
proof (induction fs arbitrary: ns pre)
  case Nil
  show ?case by simp
next
  case (Cons f fs)
  then obtain n ns' where ns: "ns = n # ns'" by (cases ns) auto
  have rng: "[0..<length (f # fs)] = 0 # map Suc [0..<length fs]"
    by (simp add: upt_conv_Cons map_Suc_upt del: upt_Suc)
  have fr: "forReturn (map Suc idx) body = forReturn idx (\<lambda>i. body (Suc i))" for idx
    and body :: "nat \<Rightarrow> string option raises"
    by (induction idx) (auto split: option.splits)
  have "forReturn [0..<length fs]
     (\<lambda>i. map_option (\<lambda>b. if b then Some ((pre @ n # ns') ! (length pre + Suc i)) else None)
            (anyHit (fs ! i) ws))
   = firstHit fs ns' ws"
    using Cons.IH [of ns' "pre @ [n]"] Cons.prems ns by (simp cong: if_cong)
  then show ?case
    unfolding ns
    by (simp only: rng forReturn.simps fr) (auto split: option.splits bool.splits)
qed

lemma checkViews_hits: "checkViews vs = firstHit viewFunctions CARD_HANDS (allWindows vs)"
proof -
  have "length CARD_HANDS \<ge> length viewFunctions"
    by (simp add: CARD_HANDS_def viewFunctions_def)
  from forReturn_firstHit [OF this, of "[]" "allWindows vs"]
  have "forReturn [0..<length viewFunctions]
     (\<lambda>i. map_option (\<lambda>b. if b then Some (CARD_HANDS ! i) else None)
            (anyHit (viewFunctions ! i) (allWindows vs)))
   = firstHit viewFunctions CARD_HANDS (allWindows vs)"
    by (simp cong: if_cong)
  then show ?thesis
    unfolding checkViews_def by (simp only: checkViews_function)
qed

lemma allWindows7:
  "allWindows [a, b, c, d, e, f, g] =
     [[a, b, c, d, e], [b, c, d, e, f], [c, d, e, f, a], [d, e, f, a, b],
      [e, f, a, b, c], [f, a, b, c, d],
      [b, c, d, e, f], [c, d, e, f, g], [d, e, f, g, b], [e, f, g, b, c],
      [f, g, b, c, d], [g, b, c, d, e],
      [c, d, e, f, g], [d, e, f, g, a], [e, f, g, a, c], [f, g, a, c, d],
      [g, a, c, d, e], [a, c, d, e, f],
      [d, e, f, g, a], [e, f, g, a, b], [f, g, a, b, d], [g, a, b, d, e],
      [a, b, d, e, f], [b, d, e, f, g],
      [e, f, g, a, b], [f, g, a, b, c], [g, a, b, c, e], [a, b, c, e, f],
      [b, c, e, f, g], [c, e, f, g, a],
      [f, g, a, b, c], [g, a, b, c, d], [a, b, c, d, f], [b, c, d, f, g],
      [c, d, f, g, a], [d, f, g, a, b],
      [g, a, b, c, d], [a, b, c, d, e], [b, c, d, e, g], [c, d, e, g, a],
      [d, e, g, a, b], [e, g, a, b, c]]"
  by (simp add: allWindows_def window_def slice_def upt_rec [of _ "numeral n" for n] upt_rec [of _ "Suc n" for n])

subsection \<open>Dealing cards\<close>

lemma dealt_refl: "dealt s s"
  by (simp add: dealt_def)

lemma dealt_trans [trans]: "dealt a b \<Longrightarrow> dealt b c \<Longrightarrow> dealt a c"
  unfolding dealt_def by (cases a, cases b, cases c) auto

lemma dealt_fields:
  assumes "dealt s s'"
  shows "userMoney s' = userMoney s" "computerMoney s' = computerMoney s"
    "currentPot s' = currentPot s" "currentBeingRisked s' = currentBeingRisked s"
    "winner s' = winner s" "roundHasEnded s' = roundHasEnded s" "userFolded s' = userFolded s"
    "userHand s' = userHand s" "computerHand s' = computerHand s"
    "computerHasTurn s' = computerHasTurn s" "startTime s' = startTime s"
    "computerTurnStartTime s' = computerTurnStartTime s"
    "userCard1 s' = userCard1 s" "userCard2 s' = userCard2 s"
    "computerCard1 s' = computerCard1 s" "computerCard2 s' = computerCard2 s"
    "foldButton s' = foldButton s" "callButton s' = callButton s" "raiseButton s' = raiseButton s"
    "newRoundButton s' = newRoundButton s" "exitGameButton s' = exitGameButton s"
    "currentWager s' = currentWager s \<or> currentWager s' = MINIMUM_BET_WAGE"
  using assms unfolding dealt_def by (cases s, cases s', simp)+

lemma drawCard_dealt: "drawCard s = Some (c, s') \<Longrightarrow> dealt s s'"
  by (auto simp: drawCard_def dealt_def split: Option.bind_splits)

lemma setDisplayCard_dealt: "setDisplayCard i c s = Some s' \<Longrightarrow> dealt s s'"
  by (auto simp: setDisplayCard_def dealt_def split: if_splits)

lemma forEach_rel:
  assumes "forEach idx body s = Some s'"
    and "\<And>t i t'. body t i = Some t' \<Longrightarrow> R t t'"
    and "\<And>t. R t t" and "\<And>a b c. R a b \<Longrightarrow> R b c \<Longrightarrow> R a c"
  shows "R s s'"
  using assms(1)
proof (induction idx arbitrary: s)
  case Nil
  then show ?case using assms(3) by simp
next
  case (Cons i idx)
  then obtain t where t: "body s i = Some t" "forEach idx body t = Some s'"
    by (auto split: option.splits)
  from assms(2) [OF t(1)] Cons.IH [OF t(2)] assms(4) show ?case by blast
qed

lemma wager_dealt: "dealt s (s\<lparr>currentWager := MINIMUM_BET_WAGE\<rparr>)"
  by (simp add: dealt_def)

lemma shown_dealt: "dealt s (s\<lparr>cardsInDisplay := n\<rparr>)"
  by (simp add: dealt_def)

lemma displayFlop_dealt:
  assumes "displayFlop s = Some s'"
  shows "dealt s s'"
proof -
  from assms obtain t where t: "forEach [0..<3]
                  (\<lambda>t i. do { (c, t') \<leftarrow> drawCard t; setDisplayCard i c t' })
                  (s\<lparr>currentWager := MINIMUM_BET_WAGE\<rparr>) = Some t"
    and s': "s' = t\<lparr>cardsInDisplay := 3\<rparr>"
    by (auto simp: displayFlop_def split: Option.bind_splits)
  have "dealt (s\<lparr>currentWager := MINIMUM_BET_WAGE\<rparr>) t"
  proof (rule forEach_rel [OF t])
    fix a i b assume "do { (c, t') \<leftarrow> drawCard a; setDisplayCard i c t' } = Some b"
    then show "dealt a b"
      by (auto split: Option.bind_splits intro: dealt_trans drawCard_dealt setDisplayCard_dealt)
  qed (auto intro: dealt_refl dealt_trans)
  with wager_dealt [of s] shown_dealt [of t 3] s' show ?thesis
    by (auto intro: dealt_trans)
qed

lemma displayFourthCard_dealt:
  assumes "displayFourthCard s = Some s'"
  shows "dealt s s'"
proof -
  from assms obtain c s1 s2 where
    d: "drawCard (s\<lparr>currentWager := MINIMUM_BET_WAGE\<rparr>) = Some (c, s1)" and
    p: "setDisplayCard 3 c s1 = Some s2" and s': "s' = s2\<lparr>cardsInDisplay := 4\<rparr>"
    by (auto simp: displayFourthCard_def split: Option.bind_splits)
  have "dealt s (s\<lparr>currentWager := MINIMUM_BET_WAGE\<rparr>)" by (rule wager_dealt)
  also have "dealt \<dots> s1" by (rule drawCard_dealt [OF d])
  also have "dealt s1 s2" by (rule setDisplayCard_dealt [OF p])
  also have "dealt s2 s'" unfolding s' by (rule shown_dealt)
  finally show ?thesis .
qed

lemma displayLastCard_dealt:
  assumes "displayLastCard s = Some s'"
  shows "dealt s s'"
proof -
  from assms obtain c s1 s2 where
    d: "drawCard (s\<lparr>currentWager := MINIMUM_BET_WAGE\<rparr>) = Some (c, s1)" and
    p: "setDisplayCard 4 c s1 = Some s2" and s': "s' = s2\<lparr>cardsInDisplay := 5\<rparr>"
    by (auto simp: displayLastCard_def split: Option.bind_splits)
  have "dealt s (s\<lparr>currentWager := MINIMUM_BET_WAGE\<rparr>)" by (rule wager_dealt)
  also have "dealt \<dots> s1" by (rule drawCard_dealt [OF d])
  also have "dealt s1 s2" by (rule setDisplayCard_dealt [OF p])
  also have "dealt s2 s'" unfolding s' by (rule shown_dealt)
  finally show ?thesis .
qed

lemma displayNextCardSet_dealt: "displayNextCardSet s = Some s' \<Longrightarrow> dealt s s'"
  by (auto simp: displayNextCardSet_def split: if_splits
      intro: displayFlop_dealt displayFourthCard_dealt displayLastCard_dealt dealt_refl)

text \<open>What \<open>__fold\<close> leaves behind when it returns.\<close>

lemma fold_result:
  assumes "fold s = Some s'"
  shows "dealt (s\<lparr>computerMoney := computerMoney s + currentPot s, currentPot := 0,
                  currentWager := MINIMUM_BET_WAGE, currentBeingRisked := 0,
                  roundHasEnded := True, winner := ''Computer'', userFolded := True,
                  userHand := userHand s', computerHand := computerHand s'\<rparr>) s'"
proof -
  let ?s1 = "s\<lparr>computerMoney := computerMoney s + currentPot s, currentPot := 0,
                currentWager := MINIMUM_BET_WAGE, currentBeingRisked := 0,
                roundHasEnded := True, winner := ''Computer'', userFolded := True\<rparr>"
  from assms obtain uh ch s4 s5 where
    uh: "checkHand True ?s1 = Some uh" and
    ch: "checkHand False (?s1\<lparr>userHand := uh\<rparr>) = Some ch" and
    s4: "(if cardsInDisplay (?s1\<lparr>userHand := uh, computerHand := ch\<rparr>) = 0
          then displayFlop (?s1\<lparr>userHand := uh, computerHand := ch\<rparr>)
          else Some (?s1\<lparr>userHand := uh, computerHand := ch\<rparr>)) = Some s4" and
    s5: "(if cardsInDisplay s4 = 3 then displayFourthCard s4 else Some s4) = Some s5" and
    s': "(if cardsInDisplay s5 = 4 then displayLastCard s5 else Some s5) = Some s'"
    by (auto simp: fold_def Let_def split: Option.bind_splits)
  have d4: "dealt (?s1\<lparr>userHand := uh, computerHand := ch\<rparr>) s4"
    using s4 by (auto split: if_splits intro: displayFlop_dealt dealt_refl)
  have d5: "dealt s4 s5"
    using s5 by (auto split: if_splits intro: displayFourthCard_dealt dealt_refl)
  have d6: "dealt s5 s'"
    using s' by (auto split: if_splits intro: displayLastCard_dealt dealt_refl)
  have d: "dealt (?s1\<lparr>userHand := uh, computerHand := ch\<rparr>) s'"
    using d4 d5 d6 by (blast intro: dealt_trans)
  from dealt_fields(8,9) [OF d] have "userHand s' = uh" "computerHand s' = ch" by simp_all
  with d show ?thesis by simp
qed

subsection \<open>The example table\<close>

lemma checkHandCards_seven:
  assumes "list_all ranked [a, b, c, d, e, f, g]"
    and "map view [a, b, c, d, e, f, g] = vs"
    and "firstHit viewFunctions CARD_HANDS (allWindows vs) = Some found"
  shows "checkHandCards [a, b, c, d, e, f, g]
         = Some (case found of Some hand \<Rightarrow> Some hand | None \<Rightarrow> getHighCard [f, g])"
proof -
  have "\<forall>x \<in> set [a, b, c, d, e, f, g]. ranked x" using assms(1) by simp
  from checkHandCards_views [OF this] show ?thesis
    by (simp only: assms(2) checkViews_hits assms(3)) (simp split: option.splits)
qed

lemma river_views:
  "map view [Card ''Queen of Spades'', Card ''Queen of Hearts'', Card ''Queen of Diamonds'',
             Card ''Queen of Clubs'', Card ''Ace of Diamonds'', Card ''Two of Hearts'',
             Card ''Four of Spades'']
   = [(10, ''S''), (10, ''H''), (10, ''D''), (10, ''C''), (12, ''D''), (0, ''H''), (2, ''S'')]"
  "map view [Card ''Queen of Spades'', Card ''Queen of Hearts'', Card ''Queen of Diamonds'',
             Card ''Queen of Clubs'', Card ''Ace of Diamonds'', Card ''Two of Clubs'',
             Card ''Three of Diamonds'']
   = [(10, ''S''), (10, ''H''), (10, ''D''), (10, ''C''), (12, ''D''), (0, ''C''), (1, ''D'')]"
  by code_simp+

lemma river_ranked:
  "list_all ranked [Card ''Queen of Spades'', Card ''Queen of Hearts'', Card ''Queen of Diamonds'',
             Card ''Queen of Clubs'', Card ''Ace of Diamonds'', Card ''Two of Hearts'',
             Card ''Four of Spades'']"
  "list_all ranked [Card ''Queen of Spades'', Card ''Queen of Hearts'', Card ''Queen of Diamonds'',
             Card ''Queen of Clubs'', Card ''Ace of Diamonds'', Card ''Two of Clubs'',
             Card ''Three of Diamonds'']"
  by code_simp+

lemma river_hits:
  "firstHit viewFunctions CARD_HANDS
     (allWindows [(10, ''S''), (10, ''H''), (10, ''D''), (10, ''C''), (12, ''D''), (0, ''H''), (2, ''S'')])
   = Some (Some ''Four of a Kind'')"
  "firstHit viewFunctions CARD_HANDS
     (allWindows [(10, ''S''), (10, ''H''), (10, ''D''), (10, ''C''), (12, ''D''), (0, ''C''), (1, ''D'')])
   = Some (Some ''Four of a Kind'')"
  unfolding allWindows7 by code_simp+

lemma river_user_hand:
  "checkHandCards [Card ''Queen of Spades'', Card ''Queen of Hearts'', Card ''Queen of Diamonds'',
             Card ''Queen of Clubs'', Card ''Ace of Diamonds'', Card ''Two of Hearts'',
             Card ''Four of Spades''] = Some (Some ''Four of a Kind'')"
  using checkHandCards_seven [OF river_ranked(1) river_views(1) river_hits(1)] by simp

lemma river_computer_hand:
  "checkHandCards [Card ''Queen of Spades'', Card ''Queen of Hearts'', Card ''Queen of Diamonds'',
             Card ''Queen of Clubs'', Card ''Ace of Diamonds'', Card ''Two of Clubs'',
             Card ''Three of Diamonds''] = Some (Some ''Four of a Kind'')"
  using checkHandCards_seven [OF river_ranked(2) river_views(2) river_hits(2)] by simp

lemma river_high_cards:
  "highCardScore [Card ''Two of Hearts'', Card ''Four of Spades''] = Some 2"
  "highCardScore [Card ''Two of Clubs'', Card ''Three of Diamonds''] = Some 1"
  by code_simp+

lemma four_score: "handScore (Some ''Four of a Kind'') = 2"
  by code_simp

lemma river_checkHand:
  assumes "displayCards s = riverCards"
    "userCard1 s = Card ''Two of Hearts''" "userCard2 s = Card ''Four of Spades''"
    "computerCard1 s = Card ''Two of Clubs''" "computerCard2 s = Card ''Three of Diamonds''"
  shows "checkHand True s = Some (Some ''Four of a Kind'')"
    and "checkHand False s = Some (Some ''Four of a Kind'')"
  using assms river_user_hand river_computer_hand
  by (simp_all add: checkHand_def riverCards_def)

lemma fold_river: "fold riverGame = Some riverFolded"
  by (simp add: fold_def Let_def river_checkHand riverGame_def riverFolded_def
      MINIMUM_BET_WAGE_def)

lemma call_river: "call 5 riverGame = Some riverShowdown"
  by (simp add: call_def executeComputerCall_def showdown_def determineWinner_def Let_def
      river_checkHand river_high_cards four_score
      riverGame_def riverShowdown_def riverMatched_def MINIMUM_BET_WAGE_def)

lemma showdown_river: "showdown riverMatched = Some riverShowdown"
  by (simp add: showdown_def determineWinner_def Let_def
      river_checkHand river_high_cards four_score
      riverGame_def riverShowdown_def riverMatched_def MINIMUM_BET_WAGE_def)

lemma call_broke: "call 5 riverBroke = Some riverBankrupt"
  by (simp add: call_def fold_def Let_def river_checkHand riverGame_def riverFolded_def
      riverBroke_def riverBankrupt_def MINIMUM_BET_WAGE_def START_BALANCE_def)

lemma key_river: "keyDown K_RETURN 6 6 riverShowdown = Some riverKeyFolded"
  by (simp add: keyDown_def fold_def Let_def river_checkHand four_score
      riverGame_def riverShowdown_def riverMatched_def riverKeyFolded_def MINIMUM_BET_WAGE_def)

subsection \<open>When a fold returns\<close>

lemma drawCard_some:
  assumes "0 < deckSize s"
  shows "\<exists>c s'. drawCard s = Some (c, s') \<and> deckSize s' = deckSize s - 1 \<and>
           displayCards s' = displayCards s \<and> cardsInDisplay s' = cardsInDisplay s"
  using assms by (simp add: drawCard_def getCardFromDeck_def deckSize_def Let_def)

lemma setDisplayCard_some:
  assumes "i < length (displayCards s)"
  shows "\<exists>s'. setDisplayCard i c s = Some s' \<and> deckSize s' = deckSize s \<and>
           length (displayCards s') = length (displayCards s) \<and>
           cardsInDisplay s' = cardsInDisplay s"
  using assms by (simp add: setDisplayCard_def deckSize_def)

lemma dealOne_some:
  assumes "0 < deckSize s" "i < length (displayCards s)"
  shows "\<exists>s'. do { (c, t) \<leftarrow> drawCard s; setDisplayCard i c t } = Some s' \<and>
           deckSize s' = deckSize s - 1 \<and>
           length (displayCards s') = length (displayCards s)"
proof -
  from drawCard_some [OF assms(1)] obtain c t where
    t: "drawCard s = Some (c, t)" "deckSize t = deckSize s - 1"
       "displayCards t = displayCards s" by blast
  from setDisplayCard_some [of i t c] assms(2) t(3) obtain s' where
    "setDisplayCard i c t = Some s'" "deckSize s' = deckSize t"
    "length (displayCards s') = length (displayCards t)" by auto
  with t show ?thesis by simp
qed

lemma displayFlop_some:
  assumes "3 \<le> deckSize s" "5 \<le> length (displayCards s)"
  shows "\<exists>s'. displayFlop s = Some s' \<and> cardsInDisplay s' = 3 \<and>
           deckSize s' = deckSize s - 3 \<and> length (displayCards s') = length (displayCards s)"
proof -
  let ?s0 = "s\<lparr>currentWager := MINIMUM_BET_WAGE\<rparr>"
  let ?body = "\<lambda>t i. do { (c, t') \<leftarrow> drawCard t; setDisplayCard i c t' }"
  have s0: "deckSize ?s0 = deckSize s" "displayCards ?s0 = displayCards s"
    by (simp_all add: deckSize_def)
  have p0: "0 < deckSize ?s0" "0 < length (displayCards ?s0)" using assms s0 by auto
  from dealOne_some [OF p0] obtain s1 where
    s1: "?body ?s0 0 = Some s1" "deckSize s1 = deckSize ?s0 - 1"
        "length (displayCards s1) = length (displayCards ?s0)" by blast
  have p1: "0 < deckSize s1" "1 < length (displayCards s1)" using assms s0 s1 by auto
  from dealOne_some [OF p1] obtain s2 where
    s2: "?body s1 1 = Some s2" "deckSize s2 = deckSize s1 - 1"
        "length (displayCards s2) = length (displayCards s1)" by blast
  have p2: "0 < deckSize s2" "2 < length (displayCards s2)" using assms s0 s1 s2 by auto
  from dealOne_some [OF p2] obtain s3' where
    s3': "?body s2 2 = Some s3'" "deckSize s3' = deckSize s2 - 1"
        "length (displayCards s3') = length (displayCards s2)" by blast
  then obtain s3 where
    s3: "?body s2 2 = Some s3" "deckSize s3 = deckSize s - 3"
        "length (displayCards s3) = length (displayCards s)"
    using s0 s1 s2 by auto
  have "[0..<3] = [0, 1, 2]" by (simp add: upt_rec)
  then have "forEach [0..<3] ?body ?s0 = Some s3"
    using s1(1) s2(1) s3(1) by simp
  then have "displayFlop s = Some (s3\<lparr>cardsInDisplay := 3\<rparr>)"
    by (simp add: displayFlop_def)
  with s3 show ?thesis by (simp add: deckSize_def)
qed

lemma displayFourthCard_some:
  assumes "1 \<le> deckSize s" "5 \<le> length (displayCards s)"
  shows "\<exists>s'. displayFourthCard s = Some s' \<and> cardsInDisplay s' = 4 \<and>
           deckSize s' = deckSize s - 1 \<and> length (displayCards s') = length (displayCards s)"
proof -
  let ?s0 = "s\<lparr>currentWager := MINIMUM_BET_WAGE\<rparr>"
  have s0: "deckSize ?s0 = deckSize s" "displayCards ?s0 = displayCards s"
    by (simp_all add: deckSize_def)
  have p0: "0 < deckSize ?s0" "3 < length (displayCards ?s0)" using assms s0 by auto
  from dealOne_some [OF p0] obtain s1' where
    "do { (c, t) \<leftarrow> drawCard ?s0; setDisplayCard 3 c t } = Some s1'"
    "deckSize s1' = deckSize ?s0 - 1"
    "length (displayCards s1') = length (displayCards ?s0)" by blast
  then obtain s1 where
    s1: "do { (c, t) \<leftarrow> drawCard ?s0; setDisplayCard 3 c t } = Some s1"
        "deckSize s1 = deckSize s - 1"
        "length (displayCards s1) = length (displayCards s)"
    using s0 by auto
  from s1(1) have "displayFourthCard s = Some (s1\<lparr>cardsInDisplay := 4\<rparr>)"
    by (auto simp: displayFourthCard_def split: Option.bind_splits)
  with s1 show ?thesis by (simp add: deckSize_def)
qed

lemma displayLastCard_some:
  assumes "1 \<le> deckSize s" "5 \<le> length (displayCards s)"
  shows "\<exists>s'. displayLastCard s = Some s' \<and> cardsInDisplay s' = 5"
proof -
  let ?s0 = "s\<lparr>currentWager := MINIMUM_BET_WAGE\<rparr>"
  have s0: "deckSize ?s0 = deckSize s" "displayCards ?s0 = displayCards s"
    by (simp_all add: deckSize_def)
  have p0: "0 < deckSize ?s0" "4 < length (displayCards ?s0)" using assms s0 by auto
  from dealOne_some [OF p0] obtain s1 where
    s1: "do { (c, t) \<leftarrow> drawCard ?s0; setDisplayCard 4 c t } = Some s1" by blast
  from s1 have "displayLastCard s = Some (s1\<lparr>cardsInDisplay := 5\<rparr>)"
    by (auto simp: displayLastCard_def split: Option.bind_splits)
  then show ?thesis by simp
qed

text \<open>When \<open>__fold\<close> returns: both hands can be evaluated and the deck holds the cards
  that are still to be turned over.\<close>

lemma fold_some:
  assumes uh: "checkHand True s \<noteq> None" and ch: "checkHand False s \<noteq> None"
    and cr: "canReveal s"
  shows "fold s \<noteq> None"
proof -
  let ?s1 = "s\<lparr>computerMoney := computerMoney s + currentPot s, currentPot := 0,
                currentWager := MINIMUM_BET_WAGE, currentBeingRisked := 0,
                roundHasEnded := True, winner := ''Computer'', userFolded := True\<rparr>"
  from uh obtain u where u: "checkHand True ?s1 = Some u" by (auto simp: checkHand_def)
  from ch obtain c where c: "checkHand False (?s1\<lparr>userHand := u\<rparr>) = Some c"
    by (auto simp: checkHand_def)
  let ?s3 = "?s1\<lparr>userHand := u, computerHand := c\<rparr>"
  have s3: "deckSize ?s3 = deckSize s" "displayCards ?s3 = displayCards s"
    "cardsInDisplay ?s3 = cardsInDisplay s" by (simp_all add: deckSize_def)
  have len: "5 \<le> length (displayCards s)" using cr by (simp add: canReveal_def)
  obtain s4 where s4: "(if cardsInDisplay ?s3 = 0 then displayFlop ?s3 else Some ?s3) = Some s4"
    and s4': "5 \<le> length (displayCards s4)" "cardsInDisplay s4 = 3 \<longrightarrow> 2 \<le> deckSize s4"
      "cardsInDisplay s4 = 4 \<longrightarrow> 1 \<le> deckSize s4"
  proof (cases "cardsInDisplay s = 0")
    case True
    then have "5 \<le> deckSize s" using cr by (simp add: canReveal_def)
    with displayFlop_some [of ?s3] s3 len obtain t where
      "displayFlop ?s3 = Some t" "cardsInDisplay t = 3" "deckSize t = deckSize s - 3"
      "length (displayCards t) = length (displayCards s)" by auto
    with True len \<open>5 \<le> deckSize s\<close> that [of t] show ?thesis by simp
  next
    case False
    with that [of ?s3] s3 len cr show ?thesis by (simp add: canReveal_def)
  qed
  obtain s5 where s5: "(if cardsInDisplay s4 = 3 then displayFourthCard s4 else Some s4) = Some s5"
    and s5': "5 \<le> length (displayCards s5)" "cardsInDisplay s5 = 4 \<longrightarrow> 1 \<le> deckSize s5"
  proof (cases "cardsInDisplay s4 = 3")
    case True
    with displayFourthCard_some [of s4] s4' obtain t where
      "displayFourthCard s4 = Some t" "cardsInDisplay t = 4" "deckSize t = deckSize s4 - 1"
      "length (displayCards t) = length (displayCards s4)" by auto
    with True s4' that [of t] show ?thesis by simp
  next
    case False
    with that [of s4] s4' show ?thesis by simp
  qed
  obtain s6 where s6: "(if cardsInDisplay s5 = 4 then displayLastCard s5 else Some s5) = Some s6"
  proof (cases "cardsInDisplay s5 = 4")
    case True
    with displayLastCard_some [of s5] s5' obtain t where "displayLastCard s5 = Some t" by auto
    with True that [of t] show ?thesis by simp
  next
    case False
    with that [of s5] show ?thesis by simp
  qed
  have "fold s = Some s6"
    using u c s4 s5 s6 by (simp add: fold_def Let_def)
  then show ?thesis by simp
qed

lemma fold_money:
  assumes "fold s = Some s'"
  shows "userMoney s' = userMoney s" "computerMoney s' = computerMoney s + currentPot s"
    "currentPot s' = 0" "currentBeingRisked s' = 0" "roundHasEnded s'"
    "winner s' = ''Computer''" "userFolded s'"
  using dealt_fields [OF fold_result [OF assms]] by simp_all

subsection \<open>Where the money goes\<close>

lemma determineWinner_result:
  assumes "determineWinner s = Some s'"
  obtains u c where
    "highCardScore [userCard1 s, userCard2 s] = Some u"
    "highCardScore [computerCard1 s, computerCard2 s] = Some c"
    "s' = (payOut (s\<lparr>winner := winnerName (handScore (userHand s))
                                   (handScore (computerHand s)) u c\<rparr>))
            \<lparr>currentPot := 0, currentWager := MINIMUM_BET_WAGE,
             currentBeingRisked := 0, roundHasEnded := True\<rparr>"
proof -
  from assms obtain u c where
    u: "highCardScore [userCard1 s, userCard2 s] = Some u" and
    c: "highCardScore [computerCard1 s, computerCard2 s] = Some c"
    by (auto simp: determineWinner_def split: Option.bind_splits)
  have "determineWinner s =
          Some ((payOut (s\<lparr>winner := winnerName (handScore (userHand s))
                                   (handScore (computerHand s)) u c\<rparr>))
            \<lparr>currentPot := 0, currentWager := MINIMUM_BET_WAGE,
             currentBeingRisked := 0, roundHasEnded := True\<rparr>)"
    by (simp add: determineWinner_def u c Let_def winnerName_def payOut_def
        split del: if_split cong: if_cong)
  with assms that [OF u c] show thesis by simp
qed

lemma payOut_fields:
  "winner (payOut s) = winner s" "currentPot (payOut s) = currentPot s"
  "userHand (payOut s) = userHand s" "computerHand (payOut s) = computerHand s"
  "userMoney (payOut s) + computerMoney (payOut s) = totalMoney s"
  by (simp_all add: payOut_def totalMoney_def)

lemma payOut_money:
  "winner s = ''User'' \<Longrightarrow>
     userMoney (payOut s) = userMoney s + currentPot s \<and> computerMoney (payOut s) = computerMoney s"
  "winner s = ''Computer'' \<Longrightarrow>
     userMoney (payOut s) = userMoney s \<and> computerMoney (payOut s) = computerMoney s + currentPot s"
  "winner s = ''Nobody'' \<Longrightarrow>
     userMoney (payOut s) = userMoney s + currentPot s / 2 \<and>
     computerMoney (payOut s) = computerMoney s + currentPot s / 2"
  by (simp_all add: payOut_def)

lemma handScore_range: "handScore h = -1 \<or> 0 \<le> handScore h"
  by (auto simp: handScore_def split: option.splits)

lemma determineWinner_total:
  assumes "determineWinner s = Some s'"
  shows "totalMoney s' = totalMoney s"
proof -
  from assms obtain w where
    "s' = (payOut (s\<lparr>winner := w\<rparr>))\<lparr>currentPot := 0, currentWager := MINIMUM_BET_WAGE,
                                      currentBeingRisked := 0, roundHasEnded := True\<rparr>"
    by (rule determineWinner_result)
  then have "totalMoney s' = userMoney (payOut (s\<lparr>winner := w\<rparr>))
                             + computerMoney (payOut (s\<lparr>winner := w\<rparr>))"
    by (simp add: totalMoney_def)
  also have "\<dots> = totalMoney (s\<lparr>winner := w\<rparr>)" by (rule payOut_fields)
  finally show ?thesis by (simp add: totalMoney_def)
qed

lemma showdown_determineWinner:
  assumes "showdown s = Some s'"
  shows "determineWinner (s\<lparr>userHand := userHand s', computerHand := computerHand s'\<rparr>) = Some s'"
proof -
  from assms obtain uh ch where
    d: "determineWinner (s\<lparr>userHand := uh, computerHand := ch\<rparr>) = Some s'"
    by (auto simp: showdown_def Let_def split: Option.bind_splits)
  then have "userHand s' = uh" "computerHand s' = ch"
    by (auto elim!: determineWinner_result simp: payOut_fields)
  with d show ?thesis by simp
qed

lemma showdown_total:
  assumes "showdown s = Some s'"
  shows "totalMoney s' = totalMoney s"
  using determineWinner_total [OF showdown_determineWinner [OF assms]]
  by (simp add: totalMoney_def)

lemma fold_total: "fold s = Some s' \<Longrightarrow> totalMoney s' = totalMoney s"
  using fold_money(1-3) [of s s'] by (simp add: totalMoney_def)

lemma computerCall_total: "totalMoney (executeComputerCall now s) = totalMoney s"
  by (simp add: totalMoney_def executeComputerCall_def)

lemma call_total:
  assumes "\<not> userMoney s - currentWager s < 0" "call now s = Some s'"
  shows "totalMoney s' = totalMoney s"
proof -
  let ?s2 = "executeComputerCall now
               (s\<lparr>userMoney := userMoney s - currentWager s,
                  currentPot := currentPot s + currentWager s,
                  currentBeingRisked := currentBeingRisked s + currentWager s\<rparr>)"
  have t: "totalMoney ?s2 = totalMoney s"
    by (simp add: totalMoney_def executeComputerCall_def)
  from assms have "(if cardsInDisplay ?s2 = 5 then showdown ?s2 else Some ?s2) = Some s'"
    by (simp add: call_def Let_def)
  then show ?thesis using t showdown_total [of ?s2 s'] by (auto split: if_splits)
qed

lemma raise_total:
  assumes "raise now s = Some s'"
  shows "totalMoney s' = totalMoney s"
proof (cases "userMoney s < 2 * currentWager s")
  case True
  with assms show ?thesis by (simp add: raise_def)
next
  case False
  let ?s2 = "executeComputerCall now
               (s\<lparr>currentWager := currentWager s * 2,
                  userMoney := userMoney s - currentWager s * 2,
                  currentPot := currentPot s + currentWager s * 2,
                  currentBeingRisked := currentBeingRisked s + currentWager s * 2\<rparr>)"
  have t: "totalMoney ?s2 = totalMoney s"
    by (simp add: totalMoney_def executeComputerCall_def)
  from assms False have "(if cardsInDisplay ?s2 = 5 then showdown ?s2 else Some ?s2) = Some s'"
    by (simp add: raise_def Let_def cong: if_cong)
  then show ?thesis using t showdown_total [of ?s2 s'] by (auto split: if_splits)
qed

lemma raise_river: "raise 5 riverGame = Some riverRaised"
  by (simp add: raise_def executeComputerCall_def showdown_def determineWinner_def Let_def
      river_checkHand river_high_cards four_score
      riverGame_def riverShowdown_def riverMatched_def riverRaised_def MINIMUM_BET_WAGE_def)

lemma tie_high_card: "highCardScore [Card ''Two of Clubs'', Card ''Four of Hearts''] = Some 2"
  by code_simp

lemma determineWinner_tie: "determineWinner riverTie = Some riverSplit"
  by (simp add: determineWinner_def Let_def river_high_cards tie_high_card four_score
      riverGame_def riverMatched_def riverTie_def riverSplit_def MINIMUM_BET_WAGE_def)

subsection \<open>A rejected raise\<close>

text \<open>
  C3. In every state in which the human's balance is below twice the current wager,
  \<open>__raise\<close> returns at once: the state after the call is the state before it, in every
  component.
\<close>

theorem raise_insufficient_funds_unchanged:
  "userMoney s < 2 * currentWager s \<Longrightarrow> raise now s = Some s"
  by (simp add: raise_def)

theorem raise_insufficient_funds_unchanged_witness:
  "userMoney (riverGame\<lparr>userMoney := 30\<rparr>) < 2 * currentWager (riverGame\<lparr>userMoney := 30\<rparr>)
   \<and> raise 7 (riverGame\<lparr>userMoney := 30\<rparr>) = Some (riverGame\<lparr>userMoney := 30\<rparr>)"
proof -
  have funds: "userMoney (riverGame\<lparr>userMoney := 30\<rparr>) < 2 * currentWager (riverGame\<lparr>userMoney := 30\<rparr>)"
    by (simp add: riverGame_def)
  from funds raise_insufficient_funds_unchanged [OF funds, of 7] show ?thesis by simp
qed

subsection \<open>A call that would bankrupt the human\<close>

text \<open>
  In every state in which a call would take the human's balance below zero,
  \<open>__call\<close> is \<open>__fold\<close> applied to the state with both balances back at the starting
  balance and the pot emptied, so that no wager is deducted. Whenever it returns, both
  balances are the starting balance, the round has ended and the computer is recorded as
  the winner of a folded round. It does return whenever both hands can be evaluated and
  the deck holds the cards that are still hidden.
\<close>

lemma call_bankrupt_fold:
  assumes "userMoney s - currentWager s < 0"
  shows "call now s = fold (s\<lparr>userMoney := START_BALANCE, computerMoney := START_BALANCE,
                              currentPot := 0, currentBeingRisked := 0\<rparr>)
         \<and> (\<forall>s'. call now s = Some s' \<longrightarrow>
               userMoney s' = START_BALANCE \<and> computerMoney s' = START_BALANCE \<and>
               currentPot s' = 0 \<and> currentBeingRisked s' = 0 \<and>
               roundHasEnded s' \<and> winner s' = ''Computer'' \<and> userFolded s')
         \<and> (checkHand True s \<noteq> None \<and> checkHand False s \<noteq> None \<and> canReveal s
              \<longrightarrow> call now s \<noteq> None)"
proof -
  let ?r = "s\<lparr>userMoney := START_BALANCE, computerMoney := START_BALANCE,
              currentPot := 0, currentBeingRisked := 0\<rparr>"
  have eq: "call now s = fold ?r" using assms by (simp add: call_def)
  have fields: "userMoney s' = START_BALANCE \<and> computerMoney s' = START_BALANCE \<and>
               currentPot s' = 0 \<and> currentBeingRisked s' = 0 \<and>
               roundHasEnded s' \<and> winner s' = ''Computer'' \<and> userFolded s'"
    if "call now s = Some s'" for s'
    using fold_money [of ?r s'] that eq by simp
  have total: "call now s \<noteq> None"
    if "checkHand True s \<noteq> None \<and> checkHand False s \<noteq> None \<and> canReveal s"
  proof -
    have "checkHand True ?r \<noteq> None" "checkHand False ?r \<noteq> None" "canReveal ?r"
      using that by (simp_all add: checkHand_def canReveal_def deckSize_def)
    from fold_some [OF this] eq show ?thesis by simp
  qed
  from eq fields total show ?thesis by blast
qed

lemma call_bankrupt_fold_river:
  "userMoney riverBroke - currentWager riverBroke < 0
   \<and> call 5 riverBroke = Some riverBankrupt
   \<and> userMoney riverBankrupt = START_BALANCE \<and> computerMoney riverBankrupt = START_BALANCE
   \<and> currentPot riverBankrupt = 0 \<and> roundHasEnded riverBankrupt
   \<and> winner riverBankrupt = ''Computer'' \<and> userFolded riverBankrupt"
proof -
  have broke: "userMoney riverBroke - currentWager riverBroke < 0"
    by (simp add: riverBroke_def riverGame_def)
  from call_bankrupt_fold [OF broke, of 5] call_broke broke
  show ?thesis by simp
qed

subsection \<open>Conservation of money\<close>

text \<open>
  C10. The sum of the two balances and the pot is the same before and after a fold, a call
  that does not bankrupt the human, a raise (accepted or rejected), the computer's matching
  call, and the determination of the winner; on a tie each balance grows by exactly half the
  pot.
\<close>

theorem betting_conserves_money:
  "(fold s = Some s1 \<longrightarrow> totalMoney s1 = totalMoney s)
   \<and> (\<not> userMoney s - currentWager s < 0 \<and> call now s = Some s2 \<longrightarrow> totalMoney s2 = totalMoney s)
   \<and> (raise now s = Some s3 \<longrightarrow> totalMoney s3 = totalMoney s)
   \<and> totalMoney (executeComputerCall now s) = totalMoney s
   \<and> (determineWinner s = Some s4 \<longrightarrow>
        totalMoney s4 = totalMoney s \<and>
        (winner s4 = ''Nobody'' \<longrightarrow>
           userMoney s4 = userMoney s + currentPot s / 2 \<and>
           computerMoney s4 = computerMoney s + currentPot s / 2 \<and> currentPot s4 = 0))"
proof -
  have split: "userMoney s4 = userMoney s + currentPot s / 2 \<and>
           computerMoney s4 = computerMoney s + currentPot s / 2 \<and> currentPot s4 = 0"
    if "determineWinner s = Some s4" "winner s4 = ''Nobody''"
  proof -
    from that(1) obtain w where
      s4: "s4 = (payOut (s\<lparr>winner := w\<rparr>))\<lparr>currentPot := 0, currentWager := MINIMUM_BET_WAGE,
                                      currentBeingRisked := 0, roundHasEnded := True\<rparr>"
      by (rule determineWinner_result)
    with that(2) have "winner (s\<lparr>winner := w\<rparr>) = ''Nobody''" by (simp add: payOut_fields)
    from payOut_money(3) [OF this] s4 show ?thesis by simp
  qed
  show ?thesis
    using fold_total call_total raise_total computerCall_total determineWinner_total split
    by blast
qed

theorem betting_conserves_money_witness:
  "fold riverGame = Some riverFolded \<and> totalMoney riverFolded = totalMoney riverGame
   \<and> \<not> userMoney riverGame - currentWager riverGame < 0
   \<and> call 5 riverGame = Some riverShowdown \<and> totalMoney riverShowdown = totalMoney riverGame
   \<and> raise 5 riverGame = Some riverRaised \<and> totalMoney riverRaised = totalMoney riverGame
   \<and> totalMoney (executeComputerCall 5 riverGame) = totalMoney riverGame
   \<and> determineWinner riverTie = Some riverSplit \<and> totalMoney riverSplit = totalMoney riverTie
   \<and> winner riverSplit = ''Nobody''
   \<and> userMoney riverSplit = userMoney riverTie + currentPot riverTie / 2
   \<and> computerMoney riverSplit = computerMoney riverTie + currentPot riverTie / 2"
proof -
  have funds: "\<not> userMoney riverGame - currentWager riverGame < 0"
    by (simp add: riverGame_def)
  have nobody: "winner riverSplit = ''Nobody''" by (simp add: riverSplit_def)
  from betting_conserves_money [of riverGame riverFolded 5 riverShowdown riverRaised riverSplit]
       betting_conserves_money [of riverTie riverFolded 5 riverShowdown riverRaised riverSplit]
       fold_river call_river raise_river determineWinner_tie funds nobody
  show ?thesis by simp
qed

subsection \<open>The highest card of a list\<close>

lemma anyCardNamed_iff:
  "anyCardNamed r cards \<longleftrightarrow> (\<exists>c \<in> set cards. contains r (getCardName c))"
  by (induction cards) auto

lemma index_of_nth: "distinct xs \<Longrightarrow> k < length xs \<Longrightarrow> index xs (xs ! k) = Some k"
proof (induction xs arbitrary: k)
  case Nil
  then show ?case by simp
next
  case (Cons x xs)
  show ?case
  proof (cases k)
    case 0
    then show ?thesis by simp
  next
    case (Suc j)
    with Cons.prems have "xs ! j \<in> set xs" "x \<notin> set xs" by simp_all
    then have "x \<noteq> xs ! j" by auto
    with Cons Suc show ?thesis by simp
  qed
qed

lemma cardRank_lt: "ranked c \<Longrightarrow> cardRank c < 13"
  using nameRank_lt [of "getCardName c"] by (auto simp: ranked_def cardRank_def)

lemma plainly_rank:
  assumes "plainlyNamed c" "ranked c" "k < 13"
  shows "contains (cardRanking ! k) (getCardName c) \<longleftrightarrow> cardRank c = k"
proof -
  from assms(2) obtain j where j: "nameRank (getCardName c) = Some j"
    by (auto simp: ranked_def)
  then obtain w where w: "firstWord (getCardName c) = Some w"
    by (auto dest: nameRank_word)
  have "cardRanking ! k \<in> set cardRanking" using assms(3) by (simp add: length_cardRanking)
  with assms(1) have "contains (cardRanking ! k) (getCardName c)
                      = (firstWord (getCardName c) = Some (cardRanking ! k))"
    by (simp add: plainlyNamed_def list_all_iff)
  also have "\<dots> = (w = cardRanking ! k)" using w by simp
  also have "\<dots> = (j = k)" using word_is_rank [OF j w assms(3)] .
  finally show ?thesis using j by (simp add: cardRank_def)
qed

lemma highCardLoop_take:
  assumes "\<forall>c \<in> set cards. plainlyNamed c \<and> ranked c" "n \<le> 13"
  shows "highCardLoop (rev (take n cardRanking)) cards
         = (if \<exists>c \<in> set cards. cardRank c < n
            then Some (cardRanking ! Max {k \<in> cardRank ` set cards. k < n}) else None)"
  using assms(2)
proof (induction n)
  case 0
  show ?case by simp
next
  case (Suc n)
  then have n: "n < 13" "n \<le> 13" by simp_all
  have step: "rev (take (Suc n) cardRanking) = cardRanking ! n # rev (take n cardRanking)"
    using n by (simp add: take_Suc_conv_app_nth length_cardRanking)
  have named: "anyCardNamed (cardRanking ! n) cards \<longleftrightarrow> n \<in> cardRank ` set cards"
    using assms(1) plainly_rank [OF _ _ n(1)] by (auto simp: anyCardNamed_iff)
  show ?case
  proof (cases "n \<in> cardRank ` set cards")
    case True
    have "Max {k \<in> cardRank ` set cards. k < Suc n} = n"
      using True by (intro Max_eqI) auto
    moreover have "\<exists>c \<in> set cards. cardRank c < Suc n" using True by auto
    ultimately show ?thesis using True by (simp only: step highCardLoop.simps named if_True)
  next
    case False
    then have "{k \<in> cardRank ` set cards. k < Suc n} = {k \<in> cardRank ` set cards. k < n}"
      by (auto simp: less_Suc_eq)
    moreover have "(\<exists>c \<in> set cards. cardRank c < Suc n) = (\<exists>c \<in> set cards. cardRank c < n)"
      using False by (auto simp: less_Suc_eq)
    ultimately show ?thesis using False Suc.IH [OF n(2)]
      by (simp only: step highCardLoop.simps named if_False)
  qed
qed

lemma highCardScore_max:
  assumes "\<forall>c \<in> set cards. plainlyNamed c \<and> ranked c" "cards \<noteq> []"
  shows "highCardScore cards = Some (Max (cardRank ` set cards))"
proof -
  have lt: "\<forall>c \<in> set cards. cardRank c < 13" using assms(1) cardRank_lt by blast
  then have all: "{k \<in> cardRank ` set cards. k < 13} = cardRank ` set cards" by auto
  have some: "\<exists>c \<in> set cards. cardRank c < 13" using lt assms(2) by (cases cards) auto
  have "Max (cardRank ` set cards) \<in> cardRank ` set cards"
    using assms(2) by (intro Max_in) auto
  then have m: "Max (cardRank ` set cards) < 13" using lt by auto
  have whole: "take 13 cardRanking = cardRanking" by (simp add: length_cardRanking)
  have "getHighCard cards = Some (cardRanking ! Max (cardRank ` set cards))"
    using highCardLoop_take [OF assms(1), of 13] some
    by (simp add: getHighCard_def all whole)
  with index_of_nth [OF distinct_cardRanking, of "Max (cardRank ` set cards)"] m
  show ?thesis by (simp add: highCardScore_def length_cardRanking)
qed

text \<open>Every card of the deck is named after its own type only, and the types run from the
  aces (12) through the twos (0) to the kings (11), four cards each.\<close>

lemma deck_plainly_named: "list_all plainlyNamed deck52"
  by code_simp

lemma deck_ranked: "list_all ranked deck52"
  by code_simp

lemma deck_ranks: "map cardRank deck52 = concat (map (replicate 4) (12 # [0..<12]))"
  by code_simp

lemma hole_cards_high:
  assumes "a \<in> set deck52" "b \<in> set deck52"
  shows "highCardScore [a, b] = Some (max (cardRank a) (cardRank b))"
proof -
  have "\<forall>c \<in> set [a, b]. plainlyNamed c \<and> ranked c"
    using assms deck_plainly_named deck_ranked by (simp add: list_all_iff)
  from highCardScore_max [OF this] show ?thesis by (simp add: max.commute)
qed

lemma swapped_facts:
  "list_all ranked [Card ''Queen of Spades'', Card ''Queen of Hearts'', Card ''Queen of Diamonds'',
             Card ''Queen of Clubs'', Card ''Ace of Diamonds'', Card ''Four of Spades'',
             Card ''Two of Hearts'']"
  "map view [Card ''Queen of Spades'', Card ''Queen of Hearts'', Card ''Queen of Diamonds'',
             Card ''Queen of Clubs'', Card ''Ace of Diamonds'', Card ''Four of Spades'',
             Card ''Two of Hearts'']
   = [(10, ''S''), (10, ''H''), (10, ''D''), (10, ''C''), (12, ''D''), (2, ''S''), (0, ''H'')]"
  by code_simp+

lemma swapped_hits:
  "firstHit viewFunctions CARD_HANDS
     (allWindows [(10, ''S''), (10, ''H''), (10, ''D''), (10, ''C''), (12, ''D''), (2, ''S''), (0, ''H'')])
   = Some (Some ''Four of a Kind'')"
  unfolding allWindows7 by code_simp

lemma swapped_user_hand:
  "checkHandCards [Card ''Queen of Spades'', Card ''Queen of Hearts'', Card ''Queen of Diamonds'',
             Card ''Queen of Clubs'', Card ''Ace of Diamonds'', Card ''Four of Spades'',
             Card ''Two of Hearts''] = Some (Some ''Four of a Kind'')"
  using checkHandCards_seven [OF swapped_facts swapped_hits] by simp

lemma swapped_hole_cards:
  "{Card ''Four of Spades'', Card ''Two of Hearts'', Card ''Two of Clubs'',
    Card ''Three of Diamonds''} \<subseteq> set deck52"
  "cardRank (Card ''Four of Spades'') = 2" "cardRank (Card ''Two of Hearts'') = 0"
  "cardRank (Card ''Two of Clubs'') = 0" "cardRank (Card ''Three of Diamonds'') = 1"
  by code_simp+

lemma showdown_swapped: "showdown riverSwapped = Some riverSwappedShowdown"
  using hole_cards_high [of "Card ''Four of Spades''" "Card ''Two of Hearts''"] swapped_hole_cards
  by (simp add: showdown_def determineWinner_def Let_def checkHand_def riverCards_def
      swapped_user_hand river_computer_hand river_high_cards four_score
      riverSwapped_def riverSwappedShowdown_def
      riverGame_def riverShowdown_def riverMatched_def MINIMUM_BET_WAGE_def)

subsection \<open>Breaking a tie at showdown\<close>

lemma river_seven_high:
  "getHighCard [Card ''Queen of Spades'', Card ''Queen of Hearts'', Card ''Queen of Diamonds'',
             Card ''Queen of Clubs'', Card ''Ace of Diamonds'', Card ''Two of Hearts'',
             Card ''Four of Spades''] = Some ''Ace''"
  "getHighCard [Card ''Queen of Spades'', Card ''Queen of Hearts'', Card ''Queen of Diamonds'',
             Card ''Queen of Clubs'', Card ''Ace of Diamonds'', Card ''Two of Clubs'',
             Card ''Three of Diamonds''] = Some ''Ace''"
  by code_simp+

text \<open>
  C1 as stated fails on the example table: both players hold four of a kind, the highest
  card among the seven cards of either player is the ace on display, and yet the round is
  not a push: the human, whose hole cards are higher, takes the whole pot.
\<close>

theorem showdown_seven_card_tie_counterexample:
  "showdown riverMatched = Some riverShowdown
   \<and> handScore (userHand riverShowdown) = handScore (computerHand riverShowdown)
   \<and> getHighCard (displayCards riverMatched @ [userCard1 riverMatched, userCard2 riverMatched])
       = Some ''Ace''
   \<and> getHighCard (displayCards riverMatched @ [computerCard1 riverMatched, computerCard2 riverMatched])
       = Some ''Ace''
   \<and> winner riverShowdown = ''User''
   \<and> userMoney riverShowdown = userMoney riverMatched + currentPot riverMatched
   \<and> computerMoney riverShowdown = computerMoney riverMatched"
  using showdown_river river_seven_high
  by (simp add: riverShowdown_def riverMatched_def riverGame_def riverCards_def)

lemma showdown_tie_scores:
  assumes "showdown s = Some s'"
    and "handScore (userHand s') = handScore (computerHand s')"
  shows "\<exists>u c. highCardScore [userCard1 s, userCard2 s] = Some u
           \<and> highCardScore [computerCard1 s, computerCard2 s] = Some c
           \<and> (c < u \<longrightarrow> winner s' = ''User'' \<and> userMoney s' = userMoney s + currentPot s
                         \<and> computerMoney s' = computerMoney s)
           \<and> (u < c \<longrightarrow> winner s' = ''Computer'' \<and> userMoney s' = userMoney s
                         \<and> computerMoney s' = computerMoney s + currentPot s)
           \<and> (u = c \<longrightarrow> winner s' = ''Nobody'' \<and> userMoney s' = userMoney s + currentPot s / 2
                         \<and> computerMoney s' = computerMoney s + currentPot s / 2)
           \<and> currentPot s' = 0 \<and> roundHasEnded s'"
proof -
  let ?t = "s\<lparr>userHand := userHand s', computerHand := computerHand s'\<rparr>"
  from showdown_determineWinner [OF assms(1)]
  have "determineWinner ?t = Some s'" .
  then obtain u c where
    u: "highCardScore [userCard1 s, userCard2 s] = Some u" and
    c: "highCardScore [computerCard1 s, computerCard2 s] = Some c" and
    s': "s' = (payOut (?t\<lparr>winner := winnerName (handScore (userHand s'))
                                   (handScore (computerHand s')) u c\<rparr>))
            \<lparr>currentPot := 0, currentWager := MINIMUM_BET_WAGE,
             currentBeingRisked := 0, roundHasEnded := True\<rparr>"
    by (rule determineWinner_result) simp
  let ?w = "if c < u then ''User'' else if u < c then ''Computer'' else ''Nobody''"
  have w: "winnerName (handScore (userHand s')) (handScore (computerHand s')) u c = ?w"
    using handScore_range [of "computerHand s'"] assms(2) by (auto simp: winnerName_def)
  let ?p = "payOut (?t\<lparr>winner := ?w\<rparr>)"
  have res: "s' = ?p\<lparr>currentPot := 0, currentWager := MINIMUM_BET_WAGE,
                     currentBeingRisked := 0, roundHasEnded := True\<rparr>"
    using s' unfolding w .
  have fields: "winner s' = ?w" "userMoney s' = userMoney ?p" "computerMoney s' = computerMoney ?p"
    "currentPot s' = 0" "roundHasEnded s'"
    using arg_cong [OF res, of winner] arg_cong [OF res, of userMoney]
      arg_cong [OF res, of computerMoney] arg_cong [OF res, of currentPot]
      arg_cong [OF res, of roundHasEnded]
    by (simp_all add: payOut_fields)
  have "c < u \<longrightarrow> winner s' = ''User'' \<and> userMoney s' = userMoney s + currentPot s
                         \<and> computerMoney s' = computerMoney s"
    using payOut_money(1) [of "?t\<lparr>winner := ?w\<rparr>"] fields by simp
  moreover have "u < c \<longrightarrow> winner s' = ''Computer'' \<and> userMoney s' = userMoney s
                         \<and> computerMoney s' = computerMoney s + currentPot s"
    using payOut_money(2) [of "?t\<lparr>winner := ?w\<rparr>"] fields by simp
  moreover have "u = c \<longrightarrow> winner s' = ''Nobody'' \<and> userMoney s' = userMoney s + currentPot s / 2
                         \<and> computerMoney s' = computerMoney s + currentPot s / 2"
    using payOut_money(3) [of "?t\<lparr>winner := ?w\<rparr>"] fields by simp
  ultimately show ?thesis using u c fields by blast
qed

text \<open>
  C1, amended. At showdown, when the two evaluated hands have the same position in the list
  of categories (or neither has one), the winner is decided by the two hole cards of each
  player alone: the player whose higher hole card has the higher rank takes the whole pot,
  and when the higher hole cards have the same rank the winner is nobody and each balance
  grows by half the pot. The hole cards are cards of the deck.
\<close>

theorem showdown_tie_broken_by_hole_cards:
  assumes "showdown s = Some s'"
    and "handScore (userHand s') = handScore (computerHand s')"
    and "{userCard1 s, userCard2 s, computerCard1 s, computerCard2 s} \<subseteq> set deck52"
  shows "highCardScore [userCard1 s, userCard2 s]
           = Some (max (cardRank (userCard1 s)) (cardRank (userCard2 s)))
         \<and> highCardScore [computerCard1 s, computerCard2 s]
           = Some (max (cardRank (computerCard1 s)) (cardRank (computerCard2 s)))
         \<and> (max (cardRank (computerCard1 s)) (cardRank (computerCard2 s))
              < max (cardRank (userCard1 s)) (cardRank (userCard2 s))
            \<longrightarrow> winner s' = ''User'' \<and> userMoney s' = userMoney s + currentPot s
                \<and> computerMoney s' = computerMoney s)
         \<and> (max (cardRank (userCard1 s)) (cardRank (userCard2 s))
              < max (cardRank (computerCard1 s)) (cardRank (computerCard2 s))
            \<longrightarrow> winner s' = ''Computer'' \<and> userMoney s' = userMoney s
                \<and> computerMoney s' = computerMoney s + currentPot s)
         \<and> (max (cardRank (userCard1 s)) (cardRank (userCard2 s))
              = max (cardRank (computerCard1 s)) (cardRank (computerCard2 s))
            \<longrightarrow> winner s' = ''Nobody'' \<and> userMoney s' = userMoney s + currentPot s / 2
                \<and> computerMoney s' = computerMoney s + currentPot s / 2)
         \<and> currentPot s' = 0 \<and> roundHasEnded s'"
proof -
  let ?u = "max (cardRank (userCard1 s)) (cardRank (userCard2 s))"
  let ?c = "max (cardRank (computerCard1 s)) (cardRank (computerCard2 s))"
  have hu: "highCardScore [userCard1 s, userCard2 s] = Some ?u"
    and hc: "highCardScore [computerCard1 s, computerCard2 s] = Some ?c"
    using assms(3) by (simp_all add: hole_cards_high)
  from showdown_tie_scores [OF assms(1,2)] obtain u c where
    u: "highCardScore [userCard1 s, userCard2 s] = Some u" and
    c: "highCardScore [computerCard1 s, computerCard2 s] = Some c" and
    uw: "c < u \<longrightarrow> winner s' = ''User'' \<and> userMoney s' = userMoney s + currentPot s
                    \<and> computerMoney s' = computerMoney s" and
    cw: "u < c \<longrightarrow> winner s' = ''Computer'' \<and> userMoney s' = userMoney s
                    \<and> computerMoney s' = computerMoney s + currentPot s" and
    nw: "u = c \<longrightarrow> winner s' = ''Nobody'' \<and> userMoney s' = userMoney s + currentPot s / 2
                    \<and> computerMoney s' = computerMoney s + currentPot s / 2" and
    rest: "currentPot s' = 0" "roundHasEnded s'"
    by blast
  have ueq: "u = ?u" using u hu by (simp only: option.inject)
  have ceq: "c = ?c" using c hc by (simp only: option.inject)
  from hu hc uw [unfolded ueq ceq] cw [unfolded ueq ceq] nw [unfolded ueq ceq] rest
  show ?thesis by blast
qed

theorem showdown_tie_broken_by_hole_cards_witness:
  "showdown riverSwapped = Some riverSwappedShowdown
   \<and> handScore (userHand riverSwappedShowdown) = handScore (computerHand riverSwappedShowdown)
   \<and> {userCard1 riverSwapped, userCard2 riverSwapped,
      computerCard1 riverSwapped, computerCard2 riverSwapped} \<subseteq> set deck52
   \<and> cardRank (userCard1 riverSwapped) = 2 \<and> cardRank (userCard2 riverSwapped) = 0
   \<and> cardRank (computerCard1 riverSwapped) = 0 \<and> cardRank (computerCard2 riverSwapped) = 1
   \<and> highCardScore [userCard1 riverSwapped, userCard2 riverSwapped] = Some 2
   \<and> highCardScore [computerCard1 riverSwapped, computerCard2 riverSwapped] = Some 1
   \<and> winner riverSwappedShowdown = ''User''
   \<and> userMoney riverSwappedShowdown = userMoney riverSwapped + currentPot riverSwapped
   \<and> computerMoney riverSwappedShowdown = computerMoney riverSwapped"
proof -
  have same: "handScore (userHand riverSwappedShowdown)
              = handScore (computerHand riverSwappedShowdown)"
    by (simp add: riverSwappedShowdown_def riverShowdown_def)
  have cards: "userCard1 riverSwapped = Card ''Four of Spades''"
    "userCard2 riverSwapped = Card ''Two of Hearts''"
    "computerCard1 riverSwapped = Card ''Two of Clubs''"
    "computerCard2 riverSwapped = Card ''Three of Diamonds''"
    by (simp_all add: riverSwapped_def riverMatched_def riverGame_def)
  have deck: "{userCard1 riverSwapped, userCard2 riverSwapped,
      computerCard1 riverSwapped, computerCard2 riverSwapped} \<subseteq> set deck52"
    unfolding cards by (rule swapped_hole_cards(1))
  have ranks: "cardRank (userCard1 riverSwapped) = 2" "cardRank (userCard2 riverSwapped) = 0"
    "cardRank (computerCard1 riverSwapped) = 0" "cardRank (computerCard2 riverSwapped) = 1"
    unfolding cards by (rule swapped_hole_cards)+
  from showdown_tie_broken_by_hole_cards [OF showdown_swapped same deck]
  show ?thesis using showdown_swapped same deck by (simp add: ranks)
qed

subsection \<open>Input while the round is over or the computer is thinking\<close>

lemma mouse_ignored_during_computer_turn:
  "computerHasTurn s \<Longrightarrow> mouseButtonDown pos now rs s = Some s"
  by (simp add: mouseButtonDown_def)

lemma mouse_bets_need_running_round:
  assumes "roundHasEnded s"
  shows "mouseButtonDown pos now rs s = Some s
         \<or> mouseButtonDown pos now rs s = startNewRound rs s
         \<or> mouseButtonDown pos now rs s = None"
  using assms by (simp add: mouseButtonDown_def)

text \<open>
  C4 holds for mouse clicks and fails for the keyboard. On the example table the round is
  over and the computer's delay is still running; a click on the fold button changes
  nothing, but the Return key runs \<open>__fold\<close>: the recorded winner changes from the human
  to the computer and the round is marked as folded.
\<close>

theorem keyDown_folds_finished_round:
  "roundHasEnded riverShowdown \<and> computerHasTurn riverShowdown
   \<and> mouseIsOver (foldButton riverShowdown) (60, 45)
   \<and> mouseButtonDown (60, 45) 6 [] riverShowdown = Some riverShowdown
   \<and> keyDown K_RETURN 6 6 riverShowdown = Some riverKeyFolded
   \<and> winner riverShowdown = ''User'' \<and> \<not> userFolded riverShowdown
   \<and> winner riverKeyFolded = ''Computer'' \<and> userFolded riverKeyFolded"
  using key_river
  by (simp add: mouse_ignored_during_computer_turn mouseIsOver_def Button_def
      riverKeyFolded_def riverShowdown_def riverMatched_def riverGame_def)

subsection \<open>The number of cards of a deck\<close>

lemma length_deck52: "length deck52 = 52"
  by (simp add: deck52_def TYPES_def SUITS_def)

lemma cardCount_Deck: "cardCount (Deck n) = n * 52"
  by (simp add: cardCount_def Deck_def length_concat length_deck52 sum_list_replicate)

lemma length_shuffle_loop:
  "\<forall>i \<in> set idx. i < length xs \<Longrightarrow> length (shuffle_loop idx rs xs) = length xs"
proof (induction idx arbitrary: rs xs)
  case Nil
  show ?case by simp
next
  case (Cons i idx)
  let ?num = "randint i (length xs - 1) (case rs of [] \<Rightarrow> 0 | r # _ \<Rightarrow> r)"
  have i: "i < length xs" using Cons.prems by simp
  then have "?num < length xs"
    unfolding randint_def
    using mod_less_divisor [of "length xs - 1 - i + 1" "case rs of [] \<Rightarrow> 0 | r # _ \<Rightarrow> r"]
    by linarith
  then have len: "length (xs ! ?num # take ?num xs @ drop (Suc ?num) xs) = length xs"
    by simp
  have "length (shuffle_loop idx (tl rs) (xs ! ?num # take ?num xs @ drop (Suc ?num) xs))
        = length (xs ! ?num # take ?num xs @ drop (Suc ?num) xs)"
    by (rule Cons.IH) (use Cons.prems len in auto)
  with len show ?case by (simp add: Let_def)
qed

lemma cardCount_shuffle: "cardCount (shuffle rs d) = cardCount d"
  by (simp add: cardCount_def shuffle_def length_shuffle_loop)

lemma cardCount_draw: "getCardFromDeck d = Some (c, d') \<Longrightarrow> cardCount d' = cardCount d"
  by (auto simp: getCardFromDeck_def cardCount_def Let_def split: if_splits)

lemma cardCount_returnAll: "cardCount (addAllCardsBackIntoDeck d) = cardCount d"
  by (simp add: cardCount_def addAllCardsBackIntoDeck_def)

lemma popSameType_length:
  "isInDeck c out = Some True \<Longrightarrow> popSameType c out = Some out1 \<Longrightarrow>
   Suc (length out1) = length out"
  by (induction out arbitrary: out1) (auto split: Option.bind_splits if_splits)

lemma returnLoop_length:
  "returnLoop cardList out = Some (marked, out') \<Longrightarrow>
   length (List.map_filter id marked) + length out' = length out"
proof (induction cardList arbitrary: out marked out')
  case Nil
  then show ?case by (simp add: List.map_filter_simps)
next
  case (Cons c cardList)
  from Cons.prems obtain known where known: "isInDeck c out = Some known"
    by (auto split: Option.bind_splits)
  show ?case
  proof (cases known)
    case False
    with Cons.prems known obtain cs where
      "returnLoop cardList out = Some (cs, out')" "marked = None # cs"
      by (auto split: Option.bind_splits)
    with Cons.IH [of out cs out'] show ?thesis by (simp add: List.map_filter_simps)
  next
    case True
    with Cons.prems known obtain out1 cs where
      p: "popSameType c out = Some out1" and
      r: "returnLoop cardList out1 = Some (cs, out')" "marked = Some c # cs"
      by (auto split: Option.bind_splits)
    from popSameType_length [OF _ p] known True have "Suc (length out1) = length out" by simp
    with Cons.IH [OF r(1)] r(2) show ?thesis by (simp add: List.map_filter_simps)
  qed
qed

lemma cardCount_returnSpecific:
  "addSpecificCardsBackIntoDeck cardList d = Some d' \<Longrightarrow> cardCount d' = cardCount d"
  using returnLoop_length
  by (fastforce simp: addSpecificCardsBackIntoDeck_def cardCount_def split: Option.bind_splits)

lemma applyOp_count:
  "applyOp d op = Some d' \<Longrightarrow> cardCount d' = cardCount d \<and> deckMultiple d' = deckMultiple d"
proof (cases op)
  case (Shuffle rs)
  assume "applyOp d op = Some d'"
  with Shuffle show ?thesis by (auto simp: cardCount_shuffle) (simp add: shuffle_def)
next
  case Draw
  assume "applyOp d op = Some d'"
  with Draw show ?thesis
    by (auto simp: cardCount_draw) (auto simp: getCardFromDeck_def Let_def split: if_splits)
next
  case ReturnAll
  assume "applyOp d op = Some d'"
  with ReturnAll show ?thesis
    by (auto simp: cardCount_returnAll) (simp add: addAllCardsBackIntoDeck_def)
next
  case (ReturnSpecific cardList)
  assume "applyOp d op = Some d'"
  with ReturnSpecific show ?thesis
    by (auto simp: cardCount_returnSpecific)
       (auto simp: addSpecificCardsBackIntoDeck_def split: Option.bind_splits)
qed

text \<open>
  C5. For a deck built with deck multiple \<open>n\<close>, after every sequence of shuffles, draws
  and returns (of all cards or of a given list of cards) that runs without raising, the
  cards in the deck and the cards out of it number \<open>n * 52\<close> together. Every prefix of
  such a sequence is such a sequence, so the count holds at every point.
\<close>

theorem deck_card_count_invariant:
  "forEach ops applyOp (Deck n) = Some d \<Longrightarrow>
   length (cardsInDeck d) + length (cardsOutOfDeck d) = n * 52 \<and> deckMultiple d = n"
proof -
  assume run: "forEach ops applyOp (Deck n) = Some d"
  have "cardCount d = cardCount (Deck n) \<and> deckMultiple d = deckMultiple (Deck n)"
    by (rule forEach_rel [OF run, where R = "\<lambda>a b. cardCount b = cardCount a \<and> deckMultiple b = deckMultiple a"])
       (auto dest: applyOp_count)
  then show ?thesis by (simp add: cardCount_Deck) (simp add: cardCount_def Deck_def)
qed


lemma shuffle_loop_zero:
  "shuffle_loop [length pre..<length pre + length rest] [] (pre @ rest) = rev rest @ pre"
proof (induction rest arbitrary: pre)
  case Nil
  show ?case by simp
next
  case (Cons x rest)
  have "length pre < length pre + length (x # rest)" by simp
  then have "[length pre..<length pre + length (x # rest)]
             = length pre # [Suc (length pre)..<length pre + length (x # rest)]"
    by (rule upt_conv_Cons)
  then have rng: "[length pre..<length pre + length (x # rest)]
             = length pre # [length (x # pre)..<length (x # pre) + length rest]"
    by (simp del: upt_Suc)
  have num: "randint (length pre) (length pre + length rest) 0 = length pre"
    by (simp add: randint_def)
  have "shuffle_loop [length pre..<length pre + length (x # rest)] [] (pre @ x # rest)
        = shuffle_loop [length (x # pre)..<length (x # pre) + length rest] [] ((x # pre) @ rest)"
    unfolding rng by (simp add: num Let_def del: upt_Suc)
  also have "\<dots> = rev rest @ x # pre" by (rule Cons.IH)
  finally show ?case by simp
qed

lemma shuffle_nil: "shuffle [] d = d\<lparr>cardsInDeck := rev (cardsInDeck d)\<rparr>"
  using shuffle_loop_zero [of "[]" "cardsInDeck d"] by (simp add: shuffle_def)

lemma shuffle_first:
  assumes "k < length (cardsInDeck d)"
  shows "shuffle [k] d
         = d\<lparr>cardsInDeck := rev (take k (cardsInDeck d) @ drop (Suc k) (cardsInDeck d))
                              @ [cardsInDeck d ! k]\<rparr>"
proof -
  let ?xs = "cardsInDeck d"
  let ?rest = "take k ?xs @ drop (Suc k) ?xs"
  have len: "Suc (length ?rest) = length ?xs" using assms by simp
  have "0 < length ?xs" using assms by auto
  then have "[0..<length ?xs] = 0 # [Suc 0..<length ?xs]" by (rule upt_conv_Cons)
  moreover have "length [?xs ! k] + length ?rest = length ?xs" using len by simp
  ultimately have rng: "[0..<length ?xs]
                        = 0 # [length [?xs ! k]..<length [?xs ! k] + length ?rest]"
    by (simp only: list.size One_nat_def) simp
  have num: "randint 0 (length ?xs - Suc 0) k = k"
    using assms by (simp add: randint_def)
  have "shuffle_loop [0..<length ?xs] [k] ?xs
        = shuffle_loop [length [?xs ! k]..<length [?xs ! k] + length ?rest] [] ([?xs ! k] @ ?rest)"
    unfolding rng by (simp add: num Let_def del: upt_Suc)
  also have "\<dots> = rev ?rest @ [?xs ! k]" by (rule shuffle_loop_zero)
  finally show ?thesis by (simp add: shuffle_def)
qed

lemma sample_run: "forEach sampleOps applyOp (Deck 1) \<noteq> None"
proof -
  have "forEach (tl sampleOps) applyOp (Deck 1\<lparr>cardsInDeck := rev (cardsInDeck (Deck 1))\<rparr>) \<noteq> None"
    by code_simp
  then show ?thesis by (simp add: sampleOps_def shuffle_nil)
qed

theorem deck_card_count_invariant_witness:
  "forEach sampleOps applyOp (Deck 1) \<noteq> None
   \<and> length (cardsInDeck (the (forEach sampleOps applyOp (Deck 1))))
       + length (cardsOutOfDeck (the (forEach sampleOps applyOp (Deck 1)))) = 1 * 52"
proof -
  from sample_run obtain d where d: "forEach sampleOps applyOp (Deck 1) = Some d" by auto
  from deck_card_count_invariant [OF d] d show ?thesis by simp
qed

subsection \<open>The wheel\<close>

lemma checkHandCards_seven_raises:
  assumes "list_all ranked [a, b, c, d, e, f, g]"
    and "map view [a, b, c, d, e, f, g] = vs"
    and "firstHit viewFunctions CARD_HANDS (allWindows vs) = None"
  shows "checkHandCards [a, b, c, d, e, f, g] = None"
proof -
  have "\<forall>x \<in> set [a, b, c, d, e, f, g]. ranked x" using assms(1) by simp
  from checkHandCards_views [OF this] show ?thesis
    by (simp only: assms(2) checkViews_hits assms(3)) simp
qed











subsection \<open>Hands on which the evaluator goes wrong\<close>

lemma sevenHigh_facts:
  "list_all ranked [Card ''Seven of Hearts'', Card ''Eight of Spades'', Card ''Nine of Spades'',
                    Card ''Ten of Spades'', Card ''Jack of Spades'', Card ''Two of Diamonds'',
                    Card ''King of Clubs'']"
  "map view [Card ''Seven of Hearts'', Card ''Eight of Spades'', Card ''Nine of Spades'',
                    Card ''Ten of Spades'', Card ''Jack of Spades'', Card ''Two of Diamonds'',
                    Card ''King of Clubs'']
   = [(5, ''SH''), (6, ''S''), (7, ''S''), (8, ''S''), (9, ''S''), (0, ''D''), (11, ''C'')]"
  by code_simp+

lemma sevenHigh_hits:
  "firstHit viewFunctions CARD_HANDS
     (allWindows [(5, ''SH''), (6, ''S''), (7, ''S''), (8, ''S''), (9, ''S''), (0, ''D''), (11, ''C'')])
   = Some (Some ''Straight Flush'')"
  unfolding allWindows7 by code_simp

lemma sevenHigh_code: "checkHandCards sevenHighHand = Some (Some ''Straight Flush'')"
  using checkHandCards_seven [OF sevenHigh_facts sevenHigh_hits]
  by (simp add: sevenHighHand_def)

lemma sevenHigh_spec: "map_option specEvaluate (specCards sevenHighHand) = Some Straight"
  by code_simp

lemma threeAces_facts:
  "list_all ranked [Card ''Queen of Diamonds'', Card ''King of Clubs'', Card ''Ace of Diamonds'',
                    Card ''Two of Spades'', Card ''Nine of Hearts'', Card ''Ace of Spades'',
                    Card ''Ace of Hearts'']"
  "map view [Card ''Queen of Diamonds'', Card ''King of Clubs'', Card ''Ace of Diamonds'',
                    Card ''Two of Spades'', Card ''Nine of Hearts'', Card ''Ace of Spades'',
                    Card ''Ace of Hearts'']
   = [(10, ''D''), (11, ''C''), (12, ''D''), (0, ''S''), (7, ''H''), (12, ''S''), (12, ''H'')]"
  by code_simp+

lemma threeAces_hits:
  "firstHit viewFunctions CARD_HANDS
     (allWindows [(10, ''D''), (11, ''C''), (12, ''D''), (0, ''S''), (7, ''H''), (12, ''S''), (12, ''H'')])
   = None"
  unfolding allWindows7 by code_simp

lemma threeAces_code: "checkHandCards threeAcesHand = None"
  using checkHandCards_seven_raises [OF threeAces_facts threeAces_hits]
  by (simp add: threeAcesHand_def)

lemma threeAces_spec: "map_option specEvaluate (specCards threeAcesHand) = Some ThreeOfAKind"
  by code_simp

text \<open>
  C7 fails on two kinds of hands. With the seven of hearts in front of the eight to jack
  of spades, \<open>isFlush\<close> takes the S of "Seven" for the suit letter and \<open>checkHand\<close>
  reports a straight flush where the 21 combinations contain only a straight. With three
  aces, a queen and a king, \<open>isStraight\<close> reads the ranking past its end and
  \<open>checkHand\<close> raises IndexError where the combinations contain three of a kind.
\<close>

theorem checkHand_differs_from_combinations:
  "checkHandCards sevenHighHand = Some (Some ''Straight Flush'')
   \<and> categoryOf (Some ''Straight Flush'') = StraightFlush
   \<and> map_option specEvaluate (specCards sevenHighHand) = Some Straight
   \<and> checkHandCards threeAcesHand = None
   \<and> map_option specEvaluate (specCards threeAcesHand) = Some ThreeOfAKind"
proof -
  have "categoryOf (Some ''Straight Flush'') = StraightFlush" by code_simp
  with sevenHigh_code sevenHigh_spec threeAces_code threeAces_spec show ?thesis by simp
qed

subsection \<open>A bankrupting call on a hand that cannot be evaluated\<close>

lemma crash_hand:
  "displayCards crashBroke @ [userCard1 crashBroke, userCard2 crashBroke] = threeAcesHand"
  by (simp add: crashBroke_def threeAcesHand_def)

text \<open>
  C2 fails where \<open>__fold\<close> does not return. On the table with a queen, a king, an ace, a
  two and a nine on display and two more aces in the human's hand, the human has nothing
  left and a call would take the balance below zero; the balances are reset and \<open>__fold\<close>
  is entered, but its first step evaluates the human's hand, \<open>isStraight\<close> reads the
  ranking past its end, and \<open>__call\<close> raises IndexError: no state is returned in which the
  round has ended with the computer as the winner.
\<close>

theorem call_bankruptcy_raises_on_three_aces:
  "userMoney crashBroke - currentWager crashBroke < 0
   \<and> \<not> roundHasEnded crashBroke \<and> \<not> computerHasTurn crashBroke
   \<and> mouseIsOver (callButton crashBroke) (124, 45) \<and> clickable (callButton crashBroke)
   \<and> checkHand True crashBroke = None
   \<and> call 5 crashBroke = None
   \<and> mouseButtonDown (124, 45) 5 [] crashBroke = None"
proof -
  have broke: "userMoney crashBroke - currentWager crashBroke < 0"
    by (simp add: crashBroke_def riverBroke_def riverGame_def)
  have hand: "checkHand True crashBroke = None"
    using threeAces_code by (simp add: checkHand_def crash_hand)
  let ?r = "crashBroke\<lparr>userMoney := START_BALANCE, computerMoney := START_BALANCE,
                       currentPot := 0, currentBeingRisked := 0\<rparr>"
  have "fold ?r = None"
    using threeAces_code by (simp add: fold_def Let_def checkHand_def crash_hand)
  with broke have call: "call 5 crashBroke = None" by (simp add: call_def)
  have state: "\<not> roundHasEnded crashBroke" "\<not> computerHasTurn crashBroke"
    "mouseIsOver (callButton crashBroke) (124, 45)" "clickable (callButton crashBroke)"
    "\<not> mouseIsOver (foldButton crashBroke) (124, 45)"
    by (simp_all add: crashBroke_def riverBroke_def riverGame_def mouseIsOver_def Button_def)
  have "mouseButtonDown (124, 45) 5 [] crashBroke = None"
    using state call by (simp add: mouseButtonDown_def)
  with broke hand call state show ?thesis by simp
qed

lemma plain_facts:
  "list_all ranked [Card ''Two of Clubs'', Card ''Four of Diamonds'', Card ''Eight of Hearts'',
                Card ''Ten of Spades'', Card ''Queen of Clubs'', Card ''King of Diamonds'',
                Card ''Ace of Hearts'']"
  "map view [Card ''Two of Clubs'', Card ''Four of Diamonds'', Card ''Eight of Hearts'',
                Card ''Ten of Spades'', Card ''Queen of Clubs'', Card ''King of Diamonds'',
                Card ''Ace of Hearts'']
   = [(0, ''C''), (2, ''D''), (6, ''H''), (8, ''S''), (10, ''C''), (11, ''D''), (12, ''H'')]"
  by code_simp+

lemma plain_hits:
  "firstHit viewFunctions CARD_HANDS
     (allWindows [(0, ''C''), (2, ''D''), (6, ''H''), (8, ''S''), (10, ''C''), (11, ''D''), (12, ''H'')])
   = Some None"
  unfolding allWindows7 by code_simp

lemma plainTurned_facts:
  "list_all ranked [Card ''King of Diamonds'', Card ''Ace of Hearts'', Card ''Eight of Hearts'',
                Card ''Ten of Spades'', Card ''Queen of Clubs'', Card ''Two of Clubs'',
                Card ''Four of Diamonds'']"
  "map view [Card ''King of Diamonds'', Card ''Ace of Hearts'', Card ''Eight of Hearts'',
                Card ''Ten of Spades'', Card ''Queen of Clubs'', Card ''Two of Clubs'',
                Card ''Four of Diamonds'']
   = [(11, ''D''), (12, ''H''), (6, ''H''), (8, ''S''), (10, ''C''), (0, ''C''), (2, ''D'')]"
  by code_simp+

lemma plainTurned_hits:
  "firstHit viewFunctions CARD_HANDS
     (allWindows [(11, ''D''), (12, ''H''), (6, ''H''), (8, ''S''), (10, ''C''), (0, ''C''), (2, ''D'')])
   = Some None"
  unfolding allWindows7 by code_simp

lemma plain_high:
  "getHighCard [Card ''King of Diamonds'', Card ''Ace of Hearts''] = Some ''Ace''"
  "getHighCard [Card ''Two of Clubs'', Card ''Four of Diamonds''] = Some ''Four''"
  by code_simp+

lemma plain_code: "checkHandCards plainHand = Some (Some ''Ace'')"
  using checkHandCards_seven [OF plain_facts plain_hits] plain_high
  by (simp add: plainHand_def)

lemma plainTurned_code: "checkHandCards plainHandTurned = Some (Some ''Four'')"
  using checkHandCards_seven [OF plainTurned_facts plainTurned_hits] plain_high
  by (simp add: plainHandTurned_def)

text \<open>
  Where none of the tests accepts any five-card hand, \<open>checkHand\<close> returns the higher
  of the last two cards, the hole cards: the two plain hands hold the same seven cards, and
  the result is an ace in one order and a four in the other.
\<close>

lemma plain_hands_fallback:
  "mset plainHandTurned = mset plainHand
   \<and> checkHandCards plainHand = Some (Some ''Ace'')
   \<and> checkHandCards plainHandTurned = Some (Some ''Four'')"
proof -
  have "mset plainHandTurned = mset plainHand"
    by (simp add: plainHand_def plainHandTurned_def)
  with plain_code plainTurned_code show ?thesis by simp
qed

lemma sevenTurned_facts:
  "list_all ranked [Card ''Eight of Spades'', Card ''Seven of Hearts'', Card ''Nine of Spades'',
                    Card ''Ten of Spades'', Card ''Jack of Spades'', Card ''Two of Diamonds'',
                    Card ''King of Clubs'']"
  "map view [Card ''Eight of Spades'', Card ''Seven of Hearts'', Card ''Nine of Spades'',
                    Card ''Ten of Spades'', Card ''Jack of Spades'', Card ''Two of Diamonds'',
                    Card ''King of Clubs'']
   = [(6, ''S''), (5, ''SH''), (7, ''S''), (8, ''S''), (9, ''S''), (0, ''D''), (11, ''C'')]"
  by code_simp+

lemma sevenTurned_hits:
  "firstHit viewFunctions CARD_HANDS
     (allWindows [(6, ''S''), (5, ''SH''), (7, ''S''), (8, ''S''), (9, ''S''), (0, ''D''), (11, ''C'')])
   = Some (Some ''Straight'')"
  unfolding allWindows7 by code_simp

lemma sevenTurned_code: "checkHandCards sevenHighTurned = Some (Some ''Straight'')"
  using checkHandCards_seven [OF sevenTurned_facts sevenTurned_hits]
  by (simp add: sevenHighTurned_def)

text \<open>
  C6 fails on the hand with the seven of hearts and the eight to jack of spades. With the
  seven of hearts as the first card on display \<open>checkHand\<close> reports a straight flush;
  with the first two cards on display exchanged (the same five cards on display, the same
  two hole cards) it reports a straight. \<open>isFlush\<close> takes the suit letter from the
  first card of a five-card hand only, and finds the S of "Seven" there.
\<close>

theorem checkHand_depends_on_card_order:
  "mset sevenHighTurned = mset sevenHighHand
   \<and> mset (take 5 sevenHighTurned) = mset (take 5 sevenHighHand)
   \<and> drop 5 sevenHighTurned = drop 5 sevenHighHand
   \<and> checkHandCards sevenHighHand = Some (Some ''Straight Flush'')
   \<and> checkHandCards sevenHighTurned = Some (Some ''Straight'')"
proof -
  have "mset sevenHighTurned = mset sevenHighHand"
    "mset (take 5 sevenHighTurned) = mset (take 5 sevenHighHand)"
    "drop 5 sevenHighTurned = drop 5 sevenHighHand"
    by (simp_all add: sevenHighHand_def sevenHighTurned_def)
  with sevenHigh_code sevenTurned_code show ?thesis by simp
qed

subsection \<open>The computer's balance\<close>

lemma first_deck_cards:
  "rev (take 48 (rev deck52) @ drop (Suc 48) (rev deck52)) @ [rev deck52 ! 48] = firstDeck"
  by code_simp

lemma first_shuffle:
  "shuffle [48] \<lparr>cardsInDeck = rev deck52, cardsOutOfDeck = [], deckMultiple = Suc 0\<rparr>
   = \<lparr>cardsInDeck = firstDeck, cardsOutOfDeck = [], deckMultiple = Suc 0\<rparr>"
  using shuffle_first [of 48 "\<lparr>cardsInDeck = rev deck52, cardsOutOfDeck = [], deckMultiple = Suc 0\<rparr>"]
      first_deck_cards
  by (simp add: length_deck52)

lemma kings_facts:
  "list_all ranked [Card ''King of Clubs'', Card ''Queen of Spades'', Card ''Queen of Hearts'',
             Card ''Queen of Diamonds'', Card ''Queen of Clubs'', Card ''Ace of Spades'',
             Card ''King of Spades'']"
  "map view [Card ''King of Clubs'', Card ''Queen of Spades'', Card ''Queen of Hearts'',
             Card ''Queen of Diamonds'', Card ''Queen of Clubs'', Card ''Ace of Spades'',
             Card ''King of Spades'']
   = [(11, ''C''), (10, ''S''), (10, ''H''), (10, ''D''), (10, ''C''), (12, ''S''), (11, ''S'')]"
  "list_all ranked [Card ''King of Clubs'', Card ''Queen of Spades'', Card ''Queen of Hearts'',
             Card ''Queen of Diamonds'', Card ''Queen of Clubs'', Card ''King of Hearts'',
             Card ''King of Diamonds'']"
  "map view [Card ''King of Clubs'', Card ''Queen of Spades'', Card ''Queen of Hearts'',
             Card ''Queen of Diamonds'', Card ''Queen of Clubs'', Card ''King of Hearts'',
             Card ''King of Diamonds'']
   = [(11, ''C''), (10, ''S''), (10, ''H''), (10, ''D''), (10, ''C''), (11, ''H''), (11, ''D'')]"
  by code_simp+

lemma kings_hits:
  "firstHit viewFunctions CARD_HANDS
     (allWindows [(11, ''C''), (10, ''S''), (10, ''H''), (10, ''D''), (10, ''C''), (12, ''S''), (11, ''S'')])
   = Some (Some ''Four of a Kind'')"
  "firstHit viewFunctions CARD_HANDS
     (allWindows [(11, ''C''), (10, ''S''), (10, ''H''), (10, ''D''), (10, ''C''), (11, ''H''), (11, ''D'')])
   = Some (Some ''Four of a Kind'')"
  unfolding allWindows7 by code_simp+

lemma kings_hands:
  "checkHandCards [Card ''King of Clubs'', Card ''Queen of Spades'', Card ''Queen of Hearts'',
             Card ''Queen of Diamonds'', Card ''Queen of Clubs'', Card ''Ace of Spades'',
             Card ''King of Spades''] = Some (Some ''Four of a Kind'')"
  "checkHandCards [Card ''King of Clubs'', Card ''Queen of Spades'', Card ''Queen of Hearts'',
             Card ''Queen of Diamonds'', Card ''Queen of Clubs'', Card ''King of Hearts'',
             Card ''King of Diamonds''] = Some (Some ''Four of a Kind'')"
  using checkHandCards_seven [OF kings_facts(1,2) kings_hits(1)]
    checkHandCards_seven [OF kings_facts(3,4) kings_hits(2)] by simp_all

lemma kings_high:
  "highCardScore [Card ''Ace of Spades'', Card ''King of Spades''] = Some 12"
  "highCardScore [Card ''King of Hearts'', Card ''King of Diamonds''] = Some 11"
  by code_simp+

lemma flop_range: "[0..<3] = [0, 1, 2]"
  by (simp add: upt_rec)

lemma empty_display: "replicate 5 c = [c, c, c, c, c]"
  by (simp add: numeral_eq_Suc)

lemmas play = startGame_def startNewRound_def newGame_def Deck_def Let_def
      drawCard_def getCardFromDeck_def butlast_append
      frame_def endComputerTurn_def displayNextCardSet_def displayFlop_def
      displayFourthCard_def displayLastCard_def setDisplayCard_def
      mouseButtonDown_def mouseIsOver_def Button_def raise_def executeComputerCall_def
      showdown_def checkHand_def determineWinner_def four_score
      checkForClickabilityChanges_def changeClickability_def addAllCardsBackIntoDeck_def
      shuffle_nil flop_range empty_display
      MINIMUM_BET_WAGE_def COMPUTER_WAIT_TIME_def START_BALANCE_def clicks_def

text \<open>The game of raises on any deck that deals two equal hands of four of a kind, the
  human's hole cards the higher ones.\<close>

lemma raise_rounds:
  assumes "shuffle [48] \<lparr>cardsInDeck = rev deck52, cardsOutOfDeck = [], deckMultiple = Suc 0\<rparr>
           = \<lparr>cardsInDeck = rest @ [q4, q3, q2, q1, k4, k3, k2, k1, a], cardsOutOfDeck = [],
              deckMultiple = Suc 0\<rparr>"
    and "checkHandCards [k4, q1, q2, q3, q4, a, k1] = Some (Some ''Four of a Kind'')"
    and "checkHandCards [k4, q1, q2, q3, q4, k2, k3] = Some (Some ''Four of a Kind'')"
    and "highCardScore [a, k1] = Some 12"
    and "highCardScore [k2, k3] = Some 11"
  shows "\<exists>s. Option.bind (startGame [] [48])
          (frames (clicks [0, 2, 4, 6, 8, 10, 12, 14, 16, 18, 20, 22, 24, 26, 28, 30])) = Some s
       \<and> userMoney s = 940 \<and> computerMoney s = -20 \<and> currentPot s = 80
       \<and> \<not> roundHasEnded s \<and> computerHasTurn s"
  by (simp add: play assms)

lemma overdraft_state:
  "\<exists>s. Option.bind (startGame [] [48])
          (frames (clicks [0, 2, 4, 6, 8, 10, 12, 14, 16, 18, 20, 22, 24, 26, 28, 30])) = Some s
       \<and> userMoney s = 940 \<and> computerMoney s = -20 \<and> currentPot s = 80
       \<and> \<not> roundHasEnded s \<and> computerHasTurn s"
  using first_shuffle [unfolded firstDeck_def] kings_hands kings_high
  by (rule raise_rounds)

lemma frames_reachable: "reachable s \<Longrightarrow> frames fs s = Some s' \<Longrightarrow> reachable s'"
proof (induction fs arbitrary: s)
  case Nil
  then show ?case by simp
next
  case (Cons f fs)
  obtain now events where f: "f = (now, events)" by (cases f)
  from Cons.prems(2) obtain t where t: "frame now events s = Some t" "frames fs t = Some s'"
    by (auto simp: f split: option.splits)
  from Cons.prems(1) t(1) have "reachable t" by (rule reachable.step)
  from Cons.IH [OF this t(2)] show ?case .
qed

lemma overdraft_reachable: "\<exists>s. reachable s \<and> computerMoney s < 0"
proof -
  from overdraft_state obtain s0 s where
    "startGame [] [48] = Some s0"
    "frames (clicks [0, 2, 4, 6, 8, 10, 12, 14, 16, 18, 20, 22, 24, 26, 28, 30]) s0 = Some s"
    "computerMoney s = -20"
    by (auto simp: bind_eq_Some_conv)
  with frames_reachable [OF reachable.start] show ?thesis by fastforce
qed

text \<open>
  C9 fails for the computer's balance. The game \<open>startGame [] [48]\<close> deals the ace and king
  of spades to the human, the kings of hearts and diamonds to the computer, and the king of
  clubs and the four queens to the table, and every later round deals the same cards again.
  The human raises four times in each round (40 from each balance per raise), wins the
  showdown of two hands of four queens with the ace, and after three rounds holds 980
  against the computer's 20. The first raise of the fourth round is matched by
  \<open>__executeComputerCall\<close> without a look at the computer's balance, which becomes -20.
\<close>

theorem computer_balance_goes_negative:
  "map_option (\<lambda>s. (userMoney s, computerMoney s, currentPot s, roundHasEnded s))
     (Option.bind (startGame [] [48])
        (frames (clicks [0, 2, 4, 6, 8, 10, 12, 14, 16, 18, 20, 22, 24, 26, 28, 30])))
   = Some (940, -20, 80, False)"
  using overdraft_state by auto

end
